theory Spec2Isabelle
  imports Main
begin

section \<open>Values of the Go libraries the actions use\<close>

text \<open>
  The actions of the package call the Go standard library (\<open>strconv\<close>, \<open>strings\<close>,
  \<open>fmt\<close>), the logger, the command-line library, the project library and the cluster
  client. The values they exchange are modelled here; the calls into the project
  library and the cluster are parameters of the actions (their answers are not decided
  by this package).
\<close>

datatype NumErr = ErrSyntax | ErrRange

text \<open>\<open>strconv.NumError\<close>: the function that failed, the input, the reason.\<close>

record NumError =
  NumError_Func :: string
  NumError_Num :: string
  NumError_Err :: NumErr

text \<open>
  An argument of a format string. A library error is represented by its message (what
  \<open>err.Error()\<close> returns). Formatting itself is not evaluated: a formatted message is
  the format with its arguments.
\<close>

datatype fmt_arg = ArgStr string | ArgNumError NumError | ArgErr string

datatype message = Text string | Sprintf string "fmt_arg list"

text \<open>\<open>cli.NewExitError(message, exitCode)\<close>.\<close>

datatype ExitError = NewExitError message int

text \<open>
  How a call ends: it returns a value, the logger's \<open>Fatal\<close>/\<open>Fatalf\<close> ends the process
  (exit status 1), or the runtime panics.
\<close>

datatype 'a result = Return 'a | Fatal message | Panic string

subsection \<open>\<open>strconv.Atoi\<close>\<close>

text \<open>
  \<open>strconv.Atoi(s)\<close> is \<open>ParseInt(s, 10, 0)\<close> narrowed to \<open>int\<close>, taken here as 64 bits
  wide. \<open>ParseUint\<close> reads the digits left to right over \<open>uint64\<close>; the natural number
  below never exceeds \<open>maxVal\<close>, the bound checks are those of the library.
\<close>

definition is_digit :: "char \<Rightarrow> bool" where
  "is_digit c = (48 \<le> (of_char c :: nat) \<and> (of_char c :: nat) \<le> 57)"

definition digit_val :: "char \<Rightarrow> nat" where
  "digit_val c = (of_char c :: nat) - 48"

definition syntaxError :: "string \<Rightarrow> string \<Rightarrow> NumError" where
  "syntaxError fn str = \<lparr>NumError_Func = fn, NumError_Num = str, NumError_Err = ErrSyntax\<rparr>"

definition rangeError :: "string \<Rightarrow> string \<Rightarrow> NumError" where
  "rangeError fn str = \<lparr>NumError_Func = fn, NumError_Num = str, NumError_Err = ErrRange\<rparr>"

definition maxUint64 :: nat where
  "maxUint64 = 2 ^ 64 - 1"

definition uint_cutoff :: nat where
  "uint_cutoff = maxUint64 div 10 + 1"

fun ParseUint_loop :: "string \<Rightarrow> nat \<Rightarrow> string \<Rightarrow> NumError + nat" where
  "ParseUint_loop s0 n [] = Inr n"
| "ParseUint_loop s0 n (c # cs) =
     (if \<not> is_digit c then Inl (syntaxError ''ParseUint'' s0)
      else if uint_cutoff \<le> n then Inl (rangeError ''ParseUint'' s0)
      else if maxUint64 < n * 10 + digit_val c then Inl (rangeError ''ParseUint'' s0)
      else ParseUint_loop s0 (n * 10 + digit_val c) cs)"

definition ParseUint :: "string \<Rightarrow> NumError + nat" where
  "ParseUint s = (if s = [] then Inl (syntaxError ''ParseUint'' s) else ParseUint_loop s 0 s)"

definition int_cutoff :: nat where
  "int_cutoff = 2 ^ 63"

definition ParseInt :: "string \<Rightarrow> NumError + int" where
  "ParseInt s0 =
     (if s0 = [] then Inl (syntaxError ''ParseInt'' s0)
      else
        let neg = (hd s0 = CHR ''-'');
            s = (if hd s0 = CHR ''+'' \<or> hd s0 = CHR ''-'' then tl s0 else s0)
        in case ParseUint s of
             Inl err \<Rightarrow>
               (if NumError_Err err \<noteq> ErrRange then Inl (syntaxError ''ParseInt'' s0)
                else Inl (rangeError ''ParseInt'' s0))
           | Inr un \<Rightarrow>
               (if \<not> neg \<and> int_cutoff \<le> un then Inl (rangeError ''ParseInt'' s0)
                else if neg \<and> int_cutoff < un then Inl (rangeError ''ParseInt'' s0)
                else Inr (if neg then - int un else int un)))"

definition Atoi :: "string \<Rightarrow> NumError + int" where
  "Atoi s = (case ParseInt s of
               Inl err \<Rightarrow> Inl (err\<lparr>NumError_Func := ''Atoi''\<rparr>)
             | Inr i \<Rightarrow> Inr i)"

text \<open>
  A decimal integer, as a string: an optional sign followed by one or more decimal
  digits. This is the notion the properties below speak of; it is defined on the
  string alone, not through \<open>Atoi\<close>.
\<close>

definition all_digits :: "string \<Rightarrow> bool" where
  "all_digits s = (s \<noteq> [] \<and> list_all is_digit s)"

definition is_decimal_integer :: "string \<Rightarrow> bool" where
  "is_decimal_integer s =
     (case s of
        [] \<Rightarrow> False
      | c # cs \<Rightarrow> if c = CHR ''+'' \<or> c = CHR ''-'' then all_digits cs else all_digits s)"

subsection \<open>\<open>strings.SplitN\<close> and \<open>strings.Join\<close>\<close>

text \<open>
  \<open>strings.SplitN(s, sep, 2)\<close> for a separator of one byte: the text before the first
  separator and the text after it, or \<open>s\<close> alone when there is no separator.
\<close>

definition SplitN2 :: "string \<Rightarrow> char \<Rightarrow> string list" where
  "SplitN2 s sep =
     (if sep \<in> set s
      then [takeWhile (\<lambda>c. c \<noteq> sep) s, tl (dropWhile (\<lambda>c. c \<noteq> sep) s)]
      else [s])"

fun Join :: "string list \<Rightarrow> string \<Rightarrow> string" where
  "Join [] sep = []"
| "Join [a] sep = a"
| "Join (a # b # rest) sep = a @ sep @ Join (b # rest) sep"

section \<open>The compose service and the cluster resources\<close>

text \<open>The fields of a compose service definition that the conversion reads.\<close>

record ServiceConfig =
  Image :: string
  Ports :: "string list"
  Restart :: string

text \<open>
  The cluster API's objects, with the fields the conversion sets. A field the source
  leaves out of a composite literal has Go's zero value: the empty string, the empty
  list, the empty map, and \<open>None\<close> for a restart policy that is not set.
\<close>

datatype RestartPolicy = RestartPolicyAlways | RestartPolicyNever | RestartPolicyOnFailure

record TypeMeta =
  Kind :: string
  APIVersion :: string

record ObjectMeta =
  ObjectMeta_Name :: string
  ObjectMeta_Labels :: "string \<rightharpoonup> string"

record ContainerPort =
  ContainerPort_ContainerPort :: int

record Container =
  Container_Name :: string
  Container_Image :: string
  Container_Ports :: "ContainerPort list"

record PodSpec =
  PodSpec_Containers :: "Container list"
  PodSpec_RestartPolicy :: "RestartPolicy option"

record PodTemplateSpec =
  PodTemplateSpec_ObjectMeta :: ObjectMeta
  PodTemplateSpec_Spec :: PodSpec

record ReplicationControllerSpec =
  Replicas :: int
  ReplicationControllerSpec_Selector :: "string \<rightharpoonup> string"
  Template :: PodTemplateSpec

record ReplicationController =
  ReplicationController_TypeMeta :: TypeMeta
  ReplicationController_ObjectMeta :: ObjectMeta
  ReplicationController_Spec :: ReplicationControllerSpec

record ServicePort =
  ServicePort_Port :: int

record ServiceSpec =
  ServiceSpec_Selector :: "string \<rightharpoonup> string"
  ServiceSpec_Ports :: "ServicePort list"

record Service =
  Service_TypeMeta :: TypeMeta
  Service_ObjectMeta :: ObjectMeta
  Service_Spec :: ServiceSpec

section \<open>\<open>ProjectKuber\<close>: the conversion of each service\<close>

text \<open>The two composite literals at the head of the loop body.\<close>

definition new_rc :: "string \<Rightarrow> ServiceConfig \<Rightarrow> ReplicationController" where
  "new_rc name service =
     \<lparr>ReplicationController_TypeMeta =
        \<lparr>Kind = ''ReplicationController'', APIVersion = ''v1''\<rparr>,
      ReplicationController_ObjectMeta =
        \<lparr>ObjectMeta_Name = name, ObjectMeta_Labels = [''service'' \<mapsto> name]\<rparr>,
      ReplicationController_Spec =
        \<lparr>Replicas = 1,
         ReplicationControllerSpec_Selector = [''service'' \<mapsto> name],
         Template =
           \<lparr>PodTemplateSpec_ObjectMeta =
              \<lparr>ObjectMeta_Name = [], ObjectMeta_Labels = [''service'' \<mapsto> name]\<rparr>,
            PodTemplateSpec_Spec =
              \<lparr>PodSpec_Containers =
                 [\<lparr>Container_Name = name, Container_Image = Image service,
                   Container_Ports = []\<rparr>],
               PodSpec_RestartPolicy = None\<rparr>\<rparr>\<rparr>\<rparr>"

definition new_sc :: "string \<Rightarrow> Service" where
  "new_sc name =
     \<lparr>Service_TypeMeta = \<lparr>Kind = ''Service'', APIVersion = ''v1''\<rparr>,
      Service_ObjectMeta =
        \<lparr>ObjectMeta_Name = name, ObjectMeta_Labels = [''service'' \<mapsto> name]\<rparr>,
      Service_Spec = \<lparr>ServiceSpec_Selector = [''service'' \<mapsto> name], ServiceSpec_Ports = []\<rparr>\<rparr>"

text \<open>
  The two loops over \<open>service.Ports\<close>. Each appends to its list (the third argument,
  empty at the start) and ends the process at the first port \<open>Atoi\<close> rejects.
\<close>

fun container_ports :: "string \<Rightarrow> string list \<Rightarrow> ContainerPort list \<Rightarrow> message + ContainerPort list" where
  "container_ports name [] ports = Inr ports"
| "container_ports name (port # rest) ports =
     (case Atoi port of
        Inl err \<Rightarrow> Inl (Sprintf ''Invalid container port %s for service %s'' [ArgStr port, ArgStr name])
      | Inr portNumber \<Rightarrow>
          container_ports name rest (ports @ [\<lparr>ContainerPort_ContainerPort = portNumber\<rparr>]))"

fun service_ports :: "string \<Rightarrow> string list \<Rightarrow> ServicePort list \<Rightarrow> message + ServicePort list" where
  "service_ports name [] servicePorts = Inr servicePorts"
| "service_ports name (port # rest) servicePorts =
     (case Atoi port of
        Inl err \<Rightarrow> Inl (Sprintf ''Invalid container port %s for service %s'' [ArgStr port, ArgStr name])
      | Inr portNumber \<Rightarrow>
          service_ports name rest (servicePorts @ [\<lparr>ServicePort_Port = portNumber\<rparr>]))"

text \<open>\<open>rc.Spec.Template.Spec.Containers[0].Ports = ports\<close>; indexing an empty list panics.\<close>

definition set_container_ports :: "ReplicationController \<Rightarrow> ContainerPort list \<Rightarrow> ReplicationController option" where
  "set_container_ports rc ports =
     (case PodSpec_Containers (PodTemplateSpec_Spec (Template (ReplicationController_Spec rc))) of
        [] \<Rightarrow> None
      | c # cs \<Rightarrow>
          Some (rc\<lparr>ReplicationController_Spec :=
                  (ReplicationController_Spec rc)\<lparr>Template :=
                    (Template (ReplicationController_Spec rc))\<lparr>PodTemplateSpec_Spec :=
                      (PodTemplateSpec_Spec (Template (ReplicationController_Spec rc)))\<lparr>PodSpec_Containers :=
                        c\<lparr>Container_Ports := ports\<rparr> # cs\<rparr>\<rparr>\<rparr>\<rparr>))"

definition set_service_ports :: "Service \<Rightarrow> ServicePort list \<Rightarrow> Service" where
  "set_service_ports sc servicePorts =
     sc\<lparr>Service_Spec := (Service_Spec sc)\<lparr>ServiceSpec_Ports := servicePorts\<rparr>\<rparr>"

text \<open>The \<open>switch service.Restart\<close>.\<close>

definition restart_policy :: "string \<Rightarrow> string \<Rightarrow> message + RestartPolicy" where
  "restart_policy name restart =
     (if restart = [] \<or> restart = ''always'' then Inr RestartPolicyAlways
      else if restart = ''no'' then Inr RestartPolicyNever
      else if restart = ''on-failure'' then Inr RestartPolicyOnFailure
      else Inl (Sprintf ''Unknown restart policy %s for service %s'' [ArgStr restart, ArgStr name]))"

definition set_restart_policy :: "ReplicationController \<Rightarrow> RestartPolicy \<Rightarrow> ReplicationController" where
  "set_restart_policy rc pol =
     rc\<lparr>ReplicationController_Spec :=
          (ReplicationController_Spec rc)\<lparr>Template :=
            (Template (ReplicationController_Spec rc))\<lparr>PodTemplateSpec_Spec :=
              (PodTemplateSpec_Spec (Template (ReplicationController_Spec rc)))\<lparr>PodSpec_RestartPolicy :=
                Some pol\<rparr>\<rparr>\<rparr>\<rparr>"

text \<open>
  The loop body up to the first API call: the two descriptors of a service, or the
  way the process ends. \<open>MarshalIndent\<close> is \<open>json.MarshalIndent\<close>, a parameter: its
  answer is the encoded text or an error's message.
\<close>

definition convert :: "(ReplicationController \<Rightarrow> string + string) \<Rightarrow> string \<Rightarrow> ServiceConfig \<Rightarrow>
    (ReplicationController \<times> Service) result" where
  "convert MarshalIndent name service =
     (case container_ports name (Ports service) [] of
        Inl m \<Rightarrow> Fatal m
      | Inr ports \<Rightarrow>
          (case set_container_ports (new_rc name service) ports of
             None \<Rightarrow> Panic ''index out of range''
           | Some rc1 \<Rightarrow>
               (case service_ports name (Ports service) [] of
                  Inl m \<Rightarrow> Fatal m
                | Inr servicePorts \<Rightarrow>
                    (case restart_policy name (Restart service) of
                       Inl m \<Rightarrow> Fatal m
                     | Inr pol \<Rightarrow>
                         (case MarshalIndent (set_restart_policy rc1 pol) of
                            Inl err \<Rightarrow>
                              Fatal (Sprintf ''Failed to marshal the replication controller: %v'' [ArgErr err])
                          | Inr data \<Rightarrow>
                              Return (set_restart_policy rc1 pol,
                                      set_service_ports (new_sc name) servicePorts))))))"

text \<open>
  The cluster: every call made to it is recorded in order, and what a call answers
  (\<open>None\<close>, or an error's message) may depend on the calls made before it. Standard
  output is the list of the lines printed.
\<close>

datatype api_call = CreateReplicationController ReplicationController | CreateService Service

record cluster =
  requests :: "api_call list"
  stdout :: "string list"

type_synonym api = "api_call list \<Rightarrow> api_call \<Rightarrow> string option"

definition submit :: "api \<Rightarrow> cluster \<Rightarrow> api_call \<Rightarrow> cluster" where
  "submit client st call =
     (case client (requests st) call of
        None \<Rightarrow> st\<lparr>requests := requests st @ [call]\<rparr>
      | Some err \<Rightarrow> st\<lparr>requests := requests st @ [call], stdout := stdout st @ [err]\<rparr>)"

text \<open>
  The \<open>for name, service := range p.Configs\<close> loop. The list is the map's entries in
  the order the loop visits them, which Go does not fix: every property below holds
  for every order. What \<open>ProjectKuber\<close> does before the loop (it parses the compose
  file, creates the output directory, reads the server address and creates the client)
  ends the process or reaches the loop, and calls the cluster at no point.
\<close>

fun kuber_range :: "(ReplicationController \<Rightarrow> string + string) \<Rightarrow> api \<Rightarrow> cluster \<Rightarrow>
    (string \<times> ServiceConfig) list \<Rightarrow> unit result \<times> cluster" where
  "kuber_range MarshalIndent client st [] = (Return (), st)"
| "kuber_range MarshalIndent client st ((name, service) # rest) =
     (case convert MarshalIndent name service of
        Fatal m \<Rightarrow> (Fatal m, st)
      | Panic p \<Rightarrow> (Panic p, st)
      | Return (rc, sc) \<Rightarrow>
          kuber_range MarshalIndent client
            (submit client (submit client st (CreateReplicationController rc)) (CreateService sc))
            rest)"

definition call_name :: "api_call \<Rightarrow> string" where
  "call_name c =
     (case c of
        CreateReplicationController rc \<Rightarrow> ObjectMeta_Name (ReplicationController_ObjectMeta rc)
      | CreateService sc \<Rightarrow> ObjectMeta_Name (Service_ObjectMeta sc))"

section \<open>\<open>ProjectScale\<close>\<close>

text \<open>
  The loop over the arguments fills \<open>servicesScale\<close> and returns at the first argument
  it rejects. \<open>kv\<close> has one or two elements, so \<open>kv[0]\<close> and \<open>kv[1]\<close> are read only
  where they exist.
\<close>

fun scale_args :: "string list \<Rightarrow> (string \<rightharpoonup> int) \<Rightarrow> ExitError + (string \<rightharpoonup> int)" where
  "scale_args [] servicesScale = Inr servicesScale"
| "scale_args (arg # rest) servicesScale =
     (let kv = SplitN2 arg (CHR ''='') in
      if length kv \<noteq> 2
      then Inl (NewExitError (Sprintf ''Invalid scale parameter: %s'' [ArgStr arg]) 2)
      else
        (case Atoi (kv ! 1) of
           Inl err \<Rightarrow>
             Inl (NewExitError (Sprintf ''Invalid scale parameter: %v'' [ArgNumError err]) 2)
         | Inr count \<Rightarrow> scale_args rest (servicesScale(kv ! 0 \<mapsto> count))))"

text \<open>
  \<open>p_Scale\<close> is the project library's \<open>Scale\<close>, called with the timeout flag and the
  map; it answers \<open>None\<close> or an error's message. The second component of the result is
  the list of the calls made to it.
\<close>

definition ProjectScale :: "(int \<Rightarrow> (string \<rightharpoonup> int) \<Rightarrow> string option) \<Rightarrow> int \<Rightarrow> string list \<Rightarrow>
    ExitError option \<times> (int \<times> (string \<rightharpoonup> int)) list" where
  "ProjectScale p_Scale timeout args =
     (case scale_args args Map.empty of
        Inl e \<Rightarrow> (Some e, [])
      | Inr servicesScale \<Rightarrow>
          (case p_Scale timeout servicesScale of
             Some err \<Rightarrow> (Some (NewExitError (Text err) 1), [(timeout, servicesScale)])
           | None \<Rightarrow> (None, [(timeout, servicesScale)])))"

text \<open>
  The form \<open>name=integer\<close> of a scale argument: there is a separator \<open>=\<close>, and what
  follows the first one is a decimal integer.
\<close>

definition scale_form :: "string \<Rightarrow> bool" where
  "scale_form arg =
     (CHR ''='' \<in> set arg \<and> is_decimal_integer (tl (dropWhile (\<lambda>c. c \<noteq> CHR ''='') arg)))"

section \<open>\<open>ProjectDelete\<close>\<close>

text \<open>
  What the callback writes: the prompt on standard output, and the error it logs.
\<close>

datatype written = Printf string "fmt_arg list" | LogrusError string

text \<open>
  The callback. \<open>scanned\<close> is what \<open>fmt.Scanln(&answer)\<close> left: the value of \<open>answer\<close>
  and the error (\<open>None\<close> for \<open>nil\<close>, or its message).
\<close>

definition BeforeDeleteCallback :: "string \<times> string option \<Rightarrow> string list \<Rightarrow> bool \<times> written list" where
  "BeforeDeleteCallback scanned stoppedContainers =
     (let prompt = Printf ''Going to remove %v\<newline>Are you sure? [yN]\<newline>''
                     [ArgStr (Join stoppedContainers '', '')]
      in case snd scanned of
           Some err \<Rightarrow> (False, [prompt, LogrusError err])
         | None \<Rightarrow>
             (if fst scanned \<noteq> ''y'' \<and> fst scanned \<noteq> ''Y'' then (False, [prompt])
              else (True, [prompt])))"

record Delete =
  RemoveVolume :: bool
  Delete_BeforeDeleteCallback :: "(string \<times> string option \<Rightarrow> string list \<Rightarrow> bool \<times> written list) option"

definition delete_options :: "bool \<Rightarrow> bool \<Rightarrow> Delete" where
  "delete_options v force =
     \<lparr>RemoveVolume = v,
      Delete_BeforeDeleteCallback = (if \<not> force then Some BeforeDeleteCallback else None)\<rparr>"

definition ProjectDelete :: "(Delete \<Rightarrow> string list \<Rightarrow> string option) \<Rightarrow> bool \<Rightarrow> bool \<Rightarrow> string list \<Rightarrow>
    ExitError option" where
  "ProjectDelete p_Delete v force args =
     (case p_Delete (delete_options v force) args of
        Some err \<Rightarrow> Some (NewExitError (Text err) 1)
      | None \<Rightarrow> None)"

section \<open>\<open>ProjectRun\<close>\<close>

text \<open>
  \<open>p_Run\<close> is the project library's \<open>Run\<close>: it answers an exit code and \<open>None\<close> or an
  error's message. \<open>c.Args()[0]\<close> on an empty argument list panics.
\<close>

definition ProjectRun :: "(string \<Rightarrow> string list \<Rightarrow> int \<times> string option) \<Rightarrow> string list \<Rightarrow>
    ExitError option result" where
  "ProjectRun p_Run args =
     (if length args = 1 then Fatal (Text ''No service specified'')
      else
        (case args of
           [] \<Rightarrow> Panic ''index out of range''
         | serviceName # commandParts \<Rightarrow>
             (case p_Run serviceName commandParts of
                (exitCode, Some err) \<Rightarrow> Return (Some (NewExitError (Text err) 1))
              | (exitCode, None) \<Rightarrow> Return (Some (NewExitError (Text []) exitCode)))))"

subsection \<open>\<open>fmt.Scanln\<close> with one string operand\<close>

text \<open>
  \<open>fmt.Scanln(&answer)\<close> of Go's library, on the runes that standard input yields up to
  its end. It skips the blanks before the word, stores the word (the runes up to the
  next space) in \<open>answer\<close>, and then wants only blanks up to the newline or the end of
  input. A newline before any word, and the end of input before any word, are errors
  and leave \<open>answer\<close> as it was, empty. \<open>isSpace\<close> is the library's table of spaces.
\<close>

type_synonym rune = nat

definition isSpace :: "rune \<Rightarrow> bool" where
  "isSpace r =
     ((9 \<le> r \<and> r \<le> 13) \<or> r = 32 \<or> r = 133 \<or> r = 160 \<or> r = 5760
      \<or> (8192 \<le> r \<and> r \<le> 8202) \<or> r = 8232 \<or> r = 8233 \<or> r = 8239 \<or> r = 8287
      \<or> r = 12288)"

text \<open>
  \<open>SkipSpace\<close> with \<open>nlIsSpace\<close> false: a carriage return before a newline is passed
  over, a newline is an error, the first rune that is no space stays in the input.
\<close>

fun SkipSpace :: "rune list \<Rightarrow> string + rune list" where
  "SkipSpace [] = Inr []"
| "SkipSpace (r # rest) =
     (if r = 13 \<and> (case rest of [] \<Rightarrow> False | n # _ \<Rightarrow> n = 10) then SkipSpace rest
      else if r = 10 then Inl ''unexpected newline''
      else if \<not> isSpace r then Inr (r # rest)
      else SkipSpace rest)"

text \<open>\<open>token(true, notSpace)\<close>: the word and the input left after it.\<close>

definition token :: "rune list \<Rightarrow> string + rune list \<times> rune list" where
  "token input =
     (case SkipSpace input of
        Inl err \<Rightarrow> Inl err
      | Inr rest \<Rightarrow>
          Inr (takeWhile (\<lambda>r. \<not> isSpace r) rest, dropWhile (\<lambda>r. \<not> isSpace r) rest))"

text \<open>The check \<open>doScan\<close> makes after the last operand when \<open>nlIsEnd\<close> is set.\<close>

fun expect_newline :: "rune list \<Rightarrow> string option" where
  "expect_newline [] = None"
| "expect_newline (r # rest) =
     (if r = 10 then None
      else if \<not> isSpace r then Some ''expected newline''
      else expect_newline rest)"

text \<open>
  The word is stored as a Go string, the UTF-8 encoding of its runes (a surrogate or a
  value beyond the last code point is written as U+FFFD).
\<close>

definition EncodeRune :: "rune \<Rightarrow> string" where
  "EncodeRune r =
     (if r < 128 then [char_of r]
      else if r < 2048 then [char_of (192 + r div 64), char_of (128 + r mod 64)]
      else if 1114111 < r \<or> (55296 \<le> r \<and> r \<le> 57343)
        then [char_of (239 :: nat), char_of (191 :: nat), char_of (189 :: nat)]
      else if r < 65536
        then [char_of (224 + r div 4096), char_of (128 + r div 64 mod 64), char_of (128 + r mod 64)]
      else [char_of (240 + r div 262144), char_of (128 + r div 4096 mod 64),
            char_of (128 + r div 64 mod 64), char_of (128 + r mod 64)])"

definition encode :: "rune list \<Rightarrow> string" where
  "encode runes = concat (map EncodeRune runes)"

text \<open>The value of \<open>answer\<close> after the call, and the error.\<close>

definition Scanln :: "rune list \<Rightarrow> string \<times> string option" where
  "Scanln stdin =
     (case SkipSpace stdin of
        Inl err \<Rightarrow> ([], Some err)
      | Inr rest \<Rightarrow>
          if rest = [] then ([], Some ''EOF'')
          else
            (case token rest of
               Inl err \<Rightarrow> ([], Some err)
             | Inr (tok, rest') \<Rightarrow> (encode tok, expect_newline rest')))"

text \<open>The line standard input holds: its text up to the first newline.\<close>

definition line_read :: "rune list \<Rightarrow> string" where
  "line_read stdin = encode (takeWhile (\<lambda>r. r \<noteq> 10) stdin)"

text \<open>
  A blank is a space other than the newline. An input holds the word of one rune \<open>t\<close>
  on its line when it is blanks, \<open>t\<close>, blanks, and then ends or goes on with a newline.
\<close>

definition blank :: "rune \<Rightarrow> bool" where
  "blank r = (isSpace r \<and> r \<noteq> 10)"

definition one_token_line :: "rune \<Rightarrow> rune list \<Rightarrow> bool" where
  "one_token_line t stdin =
     (\<exists>pre post rest. list_all blank pre \<and> list_all blank post \<and> (rest = [] \<or> hd rest = 10)
        \<and> stdin = pre @ [t] @ post @ rest)"

section \<open>\<open>ProjectUp\<close>\<close>

text \<open>
  After \<open>p.Up\<close> has succeeded and without the flag \<open>d\<close>, \<open>ProjectUp\<close> runs three
  threads: the main one waits on \<open>cleanupDone\<close>; one goroutine calls \<open>p.Log\<close> and sends
  what it returns on \<open>errChan\<close>; one goroutine waits in the \<open>select\<close> on \<open>signalChan\<close> and
  \<open>errChan\<close>. Each thread has a position; \<open>signalChan\<close> has room for one signal, the two
  other channels have none, so a send on them happens together with its receive.
\<close>

datatype main_pc = Waiting | Returned "ExitError option"

datatype log_pc = Logging | Sending "string option" | Delivered

datatype select_pc =
    Selecting | GotSignal | Printed | Cancelled | Stopping | Stopped | DoneSignal
  | GotErr "string option" | DoneErr

record up_state =
  main :: main_pc
  logger :: log_pc
  selector :: select_pc
  signalChan :: bool
  signals :: nat
  cancelled :: bool
  stops :: nat
  exited :: "int option"

text \<open>
  What can happen next. \<open>Signal\<close>: the process receives an interrupt or termination
  signal, which \<open>signal.Notify\<close> puts on \<open>signalChan\<close> when there is room and drops
  otherwise. \<open>LogReturns err\<close>: \<open>p.Log\<close> returns. \<open>TakeSignal\<close> and \<open>TakeErr\<close>: the
  \<open>select\<close> takes one of its cases. The others are the statements of the case taken, in
  order, \<open>StopCall\<close> and \<open>StopReturn\<close> being the call of \<open>ProjectStop\<close> and its return
  (what it returns is discarded), \<open>CleanupDone\<close> the send on \<open>cleanupDone\<close> received by
  the main thread, which then returns \<open>nil\<close>.
\<close>

datatype event =
    Signal | LogReturns "string option" | TakeSignal | TakeErr
  | DoPrintf | CancelFun | StopCall | StopReturn "ExitError option" | LogrusFatal | CleanupDone

definition running :: "up_state \<Rightarrow> bool" where
  "running s = (main s = Waiting \<and> exited s = None)"

definition step :: "event \<Rightarrow> up_state \<Rightarrow> up_state option" where
  "step e s =
     (if \<not> running s then None
      else
        (case e of
           Signal \<Rightarrow> Some (s\<lparr>signals := Suc (signals s), signalChan := True\<rparr>)
         | LogReturns err \<Rightarrow>
             if logger s = Logging then Some (s\<lparr>logger := Sending err\<rparr>) else None
         | TakeSignal \<Rightarrow>
             if selector s = Selecting \<and> signalChan s
             then Some (s\<lparr>selector := GotSignal, signalChan := False\<rparr>) else None
         | TakeErr \<Rightarrow>
             (case logger s of
                Sending err \<Rightarrow>
                  if selector s = Selecting
                  then Some (s\<lparr>selector := GotErr err, logger := Delivered\<rparr>) else None
              | Logging \<Rightarrow> None
              | Delivered \<Rightarrow> None)
         | DoPrintf \<Rightarrow>
             if selector s = GotSignal then Some (s\<lparr>selector := Printed\<rparr>) else None
         | CancelFun \<Rightarrow>
             if selector s = Printed then Some (s\<lparr>selector := Cancelled, cancelled := True\<rparr>)
             else None
         | StopCall \<Rightarrow>
             if selector s = Cancelled
             then Some (s\<lparr>selector := Stopping, stops := Suc (stops s)\<rparr>) else None
         | StopReturn r \<Rightarrow>
             if selector s = Stopping then Some (s\<lparr>selector := Stopped\<rparr>) else None
         | LogrusFatal \<Rightarrow>
             (case selector s of
                GotErr (Some err) \<Rightarrow> Some (s\<lparr>exited := Some 1\<rparr>)
              | _ \<Rightarrow> None)
         | CleanupDone \<Rightarrow>
             if selector s = Stopped then Some (s\<lparr>main := Returned None, selector := DoneSignal\<rparr>)
             else if selector s = GotErr None
             then Some (s\<lparr>main := Returned None, selector := DoneErr\<rparr>)
             else None))"

fun run :: "event list \<Rightarrow> up_state \<Rightarrow> up_state option" where
  "run [] s = Some s"
| "run (e # es) s = (case step e s of None \<Rightarrow> None | Some s' \<Rightarrow> run es s')"

definition foreground :: up_state where
  "foreground =
     \<lparr>main = Waiting, logger = Logging, selector = Selecting, signalChan = False,
      signals = 0, cancelled = False, stops = 0, exited = None\<rparr>"

text \<open>
  \<open>ProjectUp\<close> up to the start of the threads: \<open>up\<close> is what \<open>p.Up\<close> answers, \<open>d\<close> the flag.
  It returns at once (\<open>Inl\<close>), or starts the threads (\<open>Inr\<close>).
\<close>

definition ProjectUp :: "string option \<Rightarrow> bool \<Rightarrow> ExitError option + up_state" where
  "ProjectUp up d =
     (case up of
        Some err \<Rightarrow> Inl (Some (NewExitError (Text err) 1))
      | None \<Rightarrow> if \<not> d then Inr foreground else Inl None)"

text \<open>The positions of the \<open>select\<close> goroutine after it has taken the signal.\<close>

definition signal_case :: "up_state \<Rightarrow> bool" where
  "signal_case s =
     (selector s = GotSignal \<or> selector s = Printed \<or> selector s = Cancelled
      \<or> selector s = Stopping \<or> selector s = Stopped \<or> selector s = DoneSignal)"

text \<open>What holds of every state the threads reach.\<close>

definition up_inv :: "up_state \<Rightarrow> bool" where
  "up_inv s =
     (stops s = (if selector s = Stopping \<or> selector s = Stopped \<or> selector s = DoneSignal
                 then 1 else 0)
      \<and> cancelled s = (selector s = Cancelled \<or> selector s = Stopping \<or> selector s = Stopped
                        \<or> selector s = DoneSignal)
      \<and> (main s = Waiting \<or> main s = Returned None)
      \<and> (main s = Returned None) = (selector s = DoneSignal \<or> selector s = DoneErr)
      \<and> (exited s = None \<or> (selector s \<noteq> DoneSignal \<and> selector s \<noteq> DoneErr \<and> \<not> signal_case s)))"

section \<open>Observations on a run of the conversion\<close>

text \<open>The label selector a call to the cluster carries.\<close>

definition call_selector :: "api_call \<Rightarrow> (string \<rightharpoonup> string)" where
  "call_selector c =
     (case c of
        CreateReplicationController rc \<Rightarrow>
          ReplicationControllerSpec_Selector (ReplicationController_Spec rc)
      | CreateService sc \<Rightarrow> ServiceSpec_Selector (Service_Spec sc))"

text \<open>A service converts when the loop body reaches its API calls.\<close>

definition converts :: "(ReplicationController \<Rightarrow> string + string) \<Rightarrow> string \<times> ServiceConfig \<Rightarrow> bool" where
  "converts MarshalIndent entry =
     (case convert MarshalIndent (fst entry) (snd entry) of
        Return pair \<Rightarrow> True
      | Fatal m \<Rightarrow> False
      | Panic p \<Rightarrow> False)"

text \<open>
  The calls the services of a list ask for, in order: for each service that converts,
  its replication controller, then its service.
\<close>

definition descriptors :: "(ReplicationController \<Rightarrow> string + string) \<Rightarrow>
    (string \<times> ServiceConfig) list \<Rightarrow> api_call list" where
  "descriptors MarshalIndent configs =
     concat (map (\<lambda>(name, service).
       case convert MarshalIndent name service of
         Return (rc, sc) \<Rightarrow> [CreateReplicationController rc, CreateService sc]
       | Fatal m \<Rightarrow> []
       | Panic p \<Rightarrow> []) configs)"

text \<open>
  The errors the cluster answers to a sequence of calls made after \<open>history\<close>, in
  order.
\<close>

fun answers :: "api \<Rightarrow> api_call list \<Rightarrow> api_call list \<Rightarrow> string list" where
  "answers client history [] = []"
| "answers client history (c # cs) =
     (case client history c of None \<Rightarrow> [] | Some err \<Rightarrow> [err])
       @ answers client (history @ [c]) cs"

section \<open>Facts about \<open>Atoi\<close>\<close>

lemma ParseUint_loop_digits:
  "ParseUint_loop s0 n cs = Inr m \<Longrightarrow> list_all is_digit cs"
  by (induction cs arbitrary: n) (auto split: if_splits)

lemma ParseUint_digits: "ParseUint s = Inr m \<Longrightarrow> all_digits s"
  by (auto simp: ParseUint_def all_digits_def split: if_splits dest: ParseUint_loop_digits)

lemma ParseInt_decimal: "ParseInt s = Inr i \<Longrightarrow> is_decimal_integer s"
  apply (cases s)
   apply (simp add: ParseInt_def)
  apply (auto simp: ParseInt_def is_decimal_integer_def Let_def
      split: if_splits sum.splits dest: ParseUint_digits)
  done

lemma Atoi_decimal: "Atoi s = Inr i \<Longrightarrow> is_decimal_integer s"
  by (auto simp: Atoi_def split: sum.splits dest: ParseInt_decimal)

lemma Atoi_not_decimal: "\<not> is_decimal_integer s \<Longrightarrow> \<exists>err. Atoi s = Inl err"
  by (cases "Atoi s") (auto dest: Atoi_decimal)

lemmas Atoi_eval = Atoi_def ParseInt_def ParseUint_def is_digit_def digit_val_def
  maxUint64_def uint_cutoff_def int_cutoff_def syntaxError_def rangeError_def Let_def

lemma Atoi_5432: "Atoi ''5432'' = Inr 5432"
  by (simp add: Atoi_eval)

lemma Atoi_80: "Atoi ''80'' = Inr 80"
  by (simp add: Atoi_eval)

lemma Atoi_443: "Atoi ''443'' = Inr 443"
  by (simp add: Atoi_eval)

lemma Atoi_limits:
  "Atoi ''9223372036854775807'' = Inr 9223372036854775807"
  "Atoi ''-9223372036854775808'' = Inr (- 9223372036854775808)"
  "Atoi ''9223372036854775808''
     = Inl \<lparr>NumError_Func = ''Atoi'', NumError_Num = ''9223372036854775808'', NumError_Err = ErrRange\<rparr>"
  "Atoi ''+80'' = Inr 80"
  "Atoi [] = Inl \<lparr>NumError_Func = ''Atoi'', NumError_Num = [], NumError_Err = ErrSyntax\<rparr>"
  by (simp_all add: Atoi_eval)

lemma not_decimal_8080_80: "\<not> is_decimal_integer ''8080:80''"
  by (simp add: is_decimal_integer_def all_digits_def is_digit_def)

section \<open>Facts about the conversion of one service\<close>

lemma container_ports_bad:
  "p \<in> set ports \<Longrightarrow> Atoi p = Inl err \<Longrightarrow> \<exists>m. container_ports name ports acc = Inl m"
  by (induction ports arbitrary: acc) (auto split: sum.splits)

lemma container_ports_Inr:
  "container_ports name ports acc = Inr cps \<Longrightarrow>
     map (\<lambda>c. Inr (ContainerPort_ContainerPort c)) cps
       = map (\<lambda>c. Inr (ContainerPort_ContainerPort c)) acc @ map Atoi ports"
  by (induction ports arbitrary: acc) (auto split: sum.splits)

lemma service_ports_Inr:
  "service_ports name ports acc = Inr sps \<Longrightarrow>
     map (\<lambda>c. Inr (ServicePort_Port c)) sps
       = map (\<lambda>c. Inr (ServicePort_Port c)) acc @ map Atoi ports"
  by (induction ports arbitrary: acc) (auto split: sum.splits)

lemma container_ports_ok:
  "list_all (\<lambda>p. \<exists>n. Atoi p = Inr n) ports \<Longrightarrow> \<exists>cps. container_ports name ports acc = Inr cps"
  by (induction ports arbitrary: acc) auto

lemma service_ports_ok:
  "list_all (\<lambda>p. \<exists>n. Atoi p = Inr n) ports \<Longrightarrow> \<exists>sps. service_ports name ports acc = Inr sps"
  by (induction ports arbitrary: acc) auto

lemma set_container_ports_new_rc:
  "set_container_ports (new_rc name service) ports \<noteq> None"
  by (simp add: set_container_ports_def new_rc_def)

lemmas convert_eval = convert_def new_rc_def new_sc_def set_container_ports_def
  set_service_ports_def set_restart_policy_def restart_policy_def

lemma convert_no_panic: "convert M name service \<noteq> Panic p"
  by (auto simp: convert_def set_container_ports_new_rc split: sum.splits option.splits)

lemma convert_bad_port:
  assumes "p \<in> set (Ports service)" "Atoi p = Inl err"
  shows "\<exists>m. convert M name service = Fatal m"
  using container_ports_bad [OF assms, of name "[]"]
  by (auto simp: convert_def)

lemma convert_bad_restart:
  assumes "Restart service \<notin> {[], ''always'', ''no'', ''on-failure''}"
  shows "\<exists>m. convert M name service = Fatal m"
  using assms
  by (auto simp: convert_def restart_policy_def set_container_ports_new_rc
      split: sum.splits option.splits)

lemma convert_names:
  "convert M name service = Return (rc, sc) \<Longrightarrow>
     call_name (CreateReplicationController rc) = name \<and> call_name (CreateService sc) = name"
  by (auto simp: convert_eval call_name_def split: sum.splits option.splits if_splits)

lemma convert_selectors:
  "convert M name service = Return (rc, sc) \<Longrightarrow>
     ReplicationControllerSpec_Selector (ReplicationController_Spec rc) = [''service'' \<mapsto> name]
   \<and> ServiceSpec_Selector (Service_Spec sc) = [''service'' \<mapsto> name]"
  by (auto simp: convert_eval split: sum.splits option.splits if_splits)

lemma convert_ports:
  assumes "convert M name service = Return (rc, sc)"
    and "container_ports name (Ports service) [] = Inr cps"
    and "service_ports name (Ports service) [] = Inr sps"
  shows "map Container_Ports
           (PodSpec_Containers (PodTemplateSpec_Spec (Template (ReplicationController_Spec rc))))
         = [cps]"
    and "ServiceSpec_Ports (Service_Spec sc) = sps"
  using assms
  by (auto simp: convert_eval split: sum.splits option.splits if_splits)

lemma convert_restart:
  "convert M name service = Return (rc, sc) \<Longrightarrow>
     \<exists>pol. restart_policy name (Restart service) = Inr pol
       \<and> PodSpec_RestartPolicy (PodTemplateSpec_Spec (Template (ReplicationController_Spec rc)))
           = Some pol"
  by (auto simp: convert_def set_container_ports_def new_rc_def
      set_restart_policy_def split: sum.splits option.splits)

lemma convert_when_ports_parse:
  assumes "container_ports name (Ports service) [] = Inr cps"
    and "service_ports name (Ports service) [] = Inr sps"
    and "Restart service \<in> {[], ''always'', ''no'', ''on-failure''}"
  shows "\<exists>rc sc.
           map Container_Ports (PodSpec_Containers (PodTemplateSpec_Spec
             (Template (ReplicationController_Spec rc)))) = [cps]
         \<and> ServiceSpec_Ports (Service_Spec sc) = sps
         \<and> convert M name service =
             (case M rc of
                Inl err \<Rightarrow> Fatal (Sprintf ''Failed to marshal the replication controller: %v'' [ArgErr err])
              | Inr data \<Rightarrow> Return (rc, sc))"
proof -
  obtain pol where pol: "restart_policy name (Restart service) = Inr pol"
    using assms(3) by (auto simp: restart_policy_def)
  obtain rc1 where rc1: "set_container_ports (new_rc name service) cps = Some rc1"
    using set_container_ports_new_rc [of name service cps] by auto
  let ?rc = "set_restart_policy rc1 pol"
  let ?sc = "set_service_ports (new_sc name) sps"
  have p: "map Container_Ports (PodSpec_Containers (PodTemplateSpec_Spec
             (Template (ReplicationController_Spec ?rc)))) = [cps]"
    using rc1 by (auto simp: set_container_ports_def new_rc_def set_restart_policy_def)
  have s: "ServiceSpec_Ports (Service_Spec ?sc) = sps"
    by (simp add: set_service_ports_def)
  have c: "convert M name service =
             (case M ?rc of
                Inl err \<Rightarrow> Fatal (Sprintf ''Failed to marshal the replication controller: %v'' [ArgErr err])
              | Inr data \<Rightarrow> Return (?rc, ?sc))"
    using assms(1,2) pol rc1 by (simp add: convert_def split: sum.splits)
  from p s c show ?thesis
    by (intro exI [of _ ?rc] exI [of _ ?sc] conjI)
qed

lemma convert_web:
  "\<exists>rc sc. convert (\<lambda>rc. Inr []) ''web''
       \<lparr>Image = ''nginx'', Ports = [''80'', ''443''], Restart = ''on-failure''\<rparr>
     = Return (rc, sc)"
  by (simp add: convert_eval Atoi_80 Atoi_443)

lemma convert_db:
  "\<exists>rc sc. convert (\<lambda>rc. Inr []) ''db''
       \<lparr>Image = ''postgres'', Ports = [''5432''], Restart = ''always''\<rparr>
     = Return (rc, sc)"
  by (simp add: convert_eval Atoi_5432)

lemma map_Inr_eq_nth:
  assumes "map (\<lambda>c. Inr (f c)) xs = map g ys"
  shows "length xs = length ys" and "i < length ys \<Longrightarrow> g (ys ! i) = Inr (f (xs ! i))"
proof -
  from assms show len: "length xs = length ys" by (metis length_map)
  assume i: "i < length ys"
  with len have "map g ys ! i = Inr (f (xs ! i))"
    unfolding assms [symmetric] by simp
  with i show "g (ys ! i) = Inr (f (xs ! i))" by simp
qed

section \<open>Facts about the loop over the services\<close>

lemma requests_submit: "requests (submit client st c) = requests st @ [c]"
  by (simp add: submit_def split: option.splits)

lemma stdout_submit:
  "stdout (submit client st c) = stdout st @ answers client (requests st) [c]"
  by (simp add: submit_def split: option.splits)

lemma answers_append:
  "answers client h (xs @ ys) = answers client h xs @ answers client (h @ xs) ys"
  by (induction xs arbitrary: h) auto

lemma descriptors_Cons:
  "convert M name service = Return (rc, sc) \<Longrightarrow>
   descriptors M ((name, service) # rest)
     = [CreateReplicationController rc, CreateService sc] @ descriptors M rest"
  by (simp add: descriptors_def)

lemma kuber_range_append:
  "kuber_range M client st (xs @ ys) =
     (case kuber_range M client st xs of
        (Return u, st') \<Rightarrow> kuber_range M client st' ys
      | (Fatal m, st') \<Rightarrow> (Fatal m, st')
      | (Panic p, st') \<Rightarrow> (Panic p, st'))"
  by (induction xs arbitrary: st) (auto split: result.splits)

lemma kuber_range_no_panic: "fst (kuber_range M client st xs) \<noteq> Panic p"
  by (induction xs arbitrary: st) (auto split: result.splits simp: convert_no_panic)

lemma kuber_range_names:
  "call_name ` set (requests (snd (kuber_range M client st xs)))
     \<subseteq> call_name ` set (requests st) \<union> fst ` set xs"
proof (induction xs arbitrary: st)
  case Nil
  then show ?case by simp
next
  case (Cons x xs)
  obtain name service where x: "x = (name, service)" by (cases x)
  show ?case
  proof (cases "convert M name service")
    case (Return pair)
    obtain rc sc where pair: "pair = (rc, sc)" by (cases pair)
    let ?st = "submit client (submit client st (CreateReplicationController rc)) (CreateService sc)"
    have "call_name ` set (requests ?st) \<subseteq> call_name ` set (requests st) \<union> {name}"
      using convert_names [of M name service rc sc] Return pair
      by (auto simp: requests_submit)
    with Cons.IH [of ?st] show ?thesis
      using x Return pair by auto
  qed (auto simp: x)
qed

lemma kuber_range_stops:
  assumes "convert M name service = Fatal m"
  shows "(\<exists>m'. fst (kuber_range M client st (pre @ (name, service) # post)) = Fatal m')
       \<and> snd (kuber_range M client st (pre @ (name, service) # post))
           = snd (kuber_range M client st pre)"
proof (cases "kuber_range M client st pre")
  case (Pair r st')
  show ?thesis
  proof (cases r)
    case (Panic p)
    with Pair kuber_range_no_panic [of M client st pre p] show ?thesis by simp
  qed (use Pair assms in \<open>auto simp: kuber_range_append\<close>)
qed

lemma kuber_range_selectors:
  "\<forall>c \<in> set (requests st). call_selector c = [''service'' \<mapsto> call_name c] \<Longrightarrow>
   \<forall>c \<in> set (requests (snd (kuber_range M client st xs))).
      call_selector c = [''service'' \<mapsto> call_name c]"
proof (induction xs arbitrary: st)
  case Nil
  then show ?case by simp
next
  case (Cons x xs)
  obtain name service where x: "x = (name, service)" by (cases x)
  show ?case
  proof (cases "convert M name service")
    case (Return pair)
    obtain rc sc where pair: "pair = (rc, sc)" by (cases pair)
    let ?st = "submit client (submit client st (CreateReplicationController rc)) (CreateService sc)"
    have "\<forall>c \<in> set (requests ?st). call_selector c = [''service'' \<mapsto> call_name c]"
      using convert_selectors [of M name service rc sc] convert_names [of M name service rc sc]
        Return pair Cons.prems
      by (auto simp: requests_submit call_selector_def)
    from Cons.IH [OF this] show ?thesis
      using x Return pair by simp
  qed (use Cons.prems x in auto)
qed

lemma kuber_range_calls:
  "requests (snd (kuber_range M client st configs))
     = requests st @ descriptors M (takeWhile (converts M) configs)
   \<and> stdout (snd (kuber_range M client st configs))
     = stdout st @ answers client (requests st) (descriptors M (takeWhile (converts M) configs))"
proof (induction configs arbitrary: st)
  case Nil
  then show ?case by (simp add: descriptors_def)
next
  case (Cons x xs)
  obtain name service where x: "x = (name, service)" by (cases x)
  show ?case
  proof (cases "convert M name service")
    case (Return pair)
    obtain rc sc where pair: "pair = (rc, sc)" by (cases pair)
    let ?st = "submit client (submit client st (CreateReplicationController rc)) (CreateService sc)"
    have conv: "convert M name service = Return (rc, sc)"
      using Return pair by simp
    have step: "kuber_range M client st ((name, service) # xs) = kuber_range M client ?st xs"
      using conv by simp
    have keep: "takeWhile (converts M) ((name, service) # xs)
                  = (name, service) # takeWhile (converts M) xs"
      using conv by (simp add: converts_def)
    have req: "requests ?st = requests st @ [CreateReplicationController rc, CreateService sc]"
      by (simp add: requests_submit)
    have out: "stdout ?st = stdout st
                 @ answers client (requests st) [CreateReplicationController rc, CreateService sc]"
      by (simp add: stdout_submit requests_submit)
    from Cons.IH [of ?st] show ?thesis
      unfolding x step keep descriptors_Cons [OF conv] req out answers_append
      by simp
  next
    case (Fatal m)
    then show ?thesis by (simp add: x converts_def descriptors_def)
  next
    case (Panic p)
    then show ?thesis by (simp add: x converts_def descriptors_def)
  qed
qed

lemma kuber_range_result:
  "fst (kuber_range M client st configs) = fst (kuber_range M client' st' configs)"
proof (induction configs arbitrary: st st')
  case Nil
  then show ?case by simp
next
  case (Cons x xs)
  obtain name service where x: "x = (name, service)" by (cases x)
  show ?case
  proof (cases "convert M name service")
    case (Return pair)
    obtain rc sc where pair: "pair = (rc, sc)" by (cases pair)
    from Cons.IH show ?thesis
      by (simp add: x Return pair)
  qed (simp_all add: x)
qed

lemma kuber_range_all:
  "list_all (converts M) configs \<Longrightarrow>
   fst (kuber_range M client st configs) = Return ()
   \<and> takeWhile (converts M) configs = configs
   \<and> length (descriptors M configs) = 2 * length configs"
proof (induction configs arbitrary: st)
  case Nil
  then show ?case by (simp add: descriptors_def)
next
  case (Cons x xs)
  obtain name service where x: "x = (name, service)" by (cases x)
  from Cons.prems x obtain rc sc where conv: "convert M name service = Return (rc, sc)"
    by (cases "convert M name service") (auto simp: converts_def)
  from Cons.prems have rest: "list_all (converts M) xs" by simp
  from Cons.IH [OF rest] Cons.prems show ?case
    unfolding x descriptors_Cons [OF conv]
    by (simp add: conv)
qed

section \<open>Facts about \<open>ProjectScale\<close>\<close>

lemma scale_args_code:
  "scale_args args m = Inl e \<Longrightarrow> \<exists>msg. e = NewExitError msg 2"
  by (induction args arbitrary: m) (auto simp: Let_def split: if_splits sum.splits)

lemma scale_args_rejects_head:
  assumes "\<not> scale_form arg"
  shows "\<exists>e. scale_args (arg # rest) m = Inl e"
proof (cases "CHR ''='' \<in> set arg")
  case True
  with assms have "\<not> is_decimal_integer (tl (dropWhile (\<lambda>c. c \<noteq> CHR ''='') arg))"
    by (simp add: scale_form_def)
  then obtain err where "Atoi (tl (dropWhile (\<lambda>c. c \<noteq> CHR ''='') arg)) = Inl err"
    using Atoi_not_decimal by blast
  with True show ?thesis by (simp add: SplitN2_def)
next
  case False
  then show ?thesis by (simp add: SplitN2_def)
qed

lemma scale_args_rejects:
  "arg \<in> set args \<Longrightarrow> \<not> scale_form arg \<Longrightarrow> \<exists>e. scale_args args m = Inl e"
proof (induction args arbitrary: m)
  case Nil
  then show ?case by simp
next
  case (Cons a rest)
  show ?case
  proof (cases "scale_form a")
    case False
    then show ?thesis by (rule scale_args_rejects_head)
  next
    case True
    with Cons.prems have mem: "arg \<in> set rest" by auto
    show ?thesis
    proof (cases "scale_args [a] m")
      case (Inl e)
      then show ?thesis by (auto simp: Let_def split: if_splits sum.splits)
    next
      case (Inr m')
      then obtain m'' where "scale_args (a # rest) m = scale_args rest m''"
        by (auto simp: Let_def split: if_splits sum.splits)
      with Cons.IH [OF mem Cons.prems(2), of m''] show ?thesis by simp
    qed
  qed
qed

lemma not_scale_form_db: "\<not> scale_form ''db''"
  by (simp add: scale_form_def)

lemma not_scale_form_db_two: "\<not> scale_form ''db=two''"
  by (simp add: scale_form_def is_decimal_integer_def all_digits_def is_digit_def)

section \<open>Facts about \<open>Scanln\<close> and the confirmation\<close>

lemmas Scanln_eval = Scanln_def token_def isSpace_def encode_def EncodeRune_def char_of_eq_iff

lemma Scanln_examples:
  "Scanln [32, 121, 32, 10] = (''y'', None)"
  "Scanln [121, 101, 115, 10] = (''yes'', None)"
  "Scanln [121, 32, 110, 10] = (''y'', Some ''expected newline'')"
  "Scanln [10] = ([], Some ''unexpected newline'')"
  "Scanln [] = ([], Some ''EOF'')"
  "Scanln [13, 10] = ([], Some ''unexpected newline'')"
  "Scanln [121, 13, 10] = (''y'', None)"
  "Scanln [89] = (''Y'', None)"
  by (simp_all add: Scanln_eval)

lemma line_read_example: "line_read [32, 121, 32, 10] = '' y ''"
  by (simp add: line_read_def encode_def EncodeRune_def char_of_eq_iff)

lemma EncodeRune_not_Nil: "EncodeRune r \<noteq> []"
  by (simp add: EncodeRune_def)

lemma EncodeRune_single:
  assumes "EncodeRune r = [c]"
  shows "r < 128 \<and> r = of_char c"
proof -
  from assms have small: "r < 128"
    by (auto simp: EncodeRune_def split: if_splits)
  with assms have "char_of r = c" by (simp add: EncodeRune_def)
  then have "take_bit 8 r = (of_char c :: nat)" by (simp add: char_of_eq_iff)
  moreover from small have "take_bit 8 r = r" by (simp add: take_bit_eq_mod)
  ultimately show ?thesis using small by simp
qed

lemma encode_single:
  "encode runes = [c] \<longleftrightarrow> (\<exists>r. runes = [r] \<and> EncodeRune r = [c])"
proof
  assume e: "encode runes = [c]"
  show "\<exists>r. runes = [r] \<and> EncodeRune r = [c]"
  proof (cases runes)
    case Nil
    with e show ?thesis by (simp add: encode_def)
  next
    case (Cons r rest)
    with e have app: "EncodeRune r @ encode rest = [c]" by (simp add: encode_def)
    with EncodeRune_not_Nil [of r] have one: "EncodeRune r = [c]" and none: "encode rest = []"
      by (auto simp: append_eq_Cons_conv)
    from none have "rest = []"
      using EncodeRune_not_Nil by (cases rest) (auto simp: encode_def)
    with one Cons show ?thesis by simp
  qed
next
  assume "\<exists>r. runes = [r] \<and> EncodeRune r = [c]"
  then show "encode runes = [c]" by (auto simp: encode_def)
qed

lemma encode_y: "encode runes = ''y'' \<longleftrightarrow> runes = [121]"
proof
  assume "encode runes = ''y''"
  then obtain r where r: "runes = [r]" "EncodeRune r = [CHR ''y'']"
    using encode_single by blast
  from EncodeRune_single [OF r(2)] have "r = 121" by simp
  with r show "runes = [121]" by simp
next
  assume "runes = [121]"
  then show "encode runes = ''y''" by (simp add: encode_def EncodeRune_def char_of_eq_iff)
qed

lemma encode_Y: "encode runes = ''Y'' \<longleftrightarrow> runes = [89]"
proof
  assume "encode runes = ''Y''"
  then obtain r where r: "runes = [r]" "EncodeRune r = [CHR ''Y'']"
    using encode_single by blast
  from EncodeRune_single [OF r(2)] have "r = 89" by simp
  with r show "runes = [89]" by simp
next
  assume "runes = [89]"
  then show "encode runes = ''Y''" by (simp add: encode_def EncodeRune_def char_of_eq_iff)
qed

lemma SkipSpace_blanks:
  "list_all blank pre \<Longrightarrow> rest = [] \<or> \<not> isSpace (hd rest) \<Longrightarrow> SkipSpace (pre @ rest) = Inr rest"
proof (induction pre)
  case Nil
  then show ?case by (cases rest) (auto simp: isSpace_def)
next
  case (Cons r pre)
  from Cons.prems have "blank r" and pre: "list_all blank pre"
    by simp_all
  then have r: "isSpace r" "r \<noteq> 10"
    by (simp_all add: blank_def)
  have next_not_newline: "\<not> (case pre @ rest of [] \<Rightarrow> False | n # _ \<Rightarrow> n = 10)"
  proof (cases pre)
    case Nil
    with Cons.prems(2) show ?thesis by (cases rest) (auto simp: isSpace_def)
  next
    case (Cons p ps)
    with pre have "blank p" by simp
    with Cons show ?thesis by (simp add: blank_def)
  qed
  from Cons.IH [OF pre Cons.prems(2)] r next_not_newline show ?case by simp
qed

lemma SkipSpace_Inr:
  "SkipSpace input = Inr rest \<Longrightarrow>
     \<exists>pre. list_all blank pre \<and> input = pre @ rest \<and> (rest = [] \<or> \<not> isSpace (hd rest))"
proof (induction input)
  case Nil
  then show ?case by simp
next
  case (Cons r input)
  show ?case
  proof (cases "isSpace r")
    case False
    with Cons.prems have "rest = r # input"
      by (auto simp: isSpace_def split: if_splits)
    with False show ?thesis by (intro exI [of _ "[]"]) simp
  next
    case True
    from Cons.prems have not_nl: "r \<noteq> 10"
      by (auto split: if_splits list.splits)
    from Cons.prems True not_nl have "SkipSpace input = Inr rest"
      by (auto split: if_splits)
    from Cons.IH [OF this] obtain pre where
      pre: "list_all blank pre" "input = pre @ rest" "rest = [] \<or> \<not> isSpace (hd rest)"
      by blast
    moreover from True not_nl have "blank r" by (simp add: blank_def)
    ultimately show ?thesis
      by (intro exI [of _ "r # pre"]) simp
  qed
qed

lemma expect_newline_blanks:
  "list_all blank post \<Longrightarrow> rest = [] \<or> hd rest = 10 \<Longrightarrow> expect_newline (post @ rest) = None"
proof (induction post)
  case Nil
  then show ?case by (cases rest) auto
next
  case (Cons r post)
  from Cons.prems have "blank r" and post: "list_all blank post"
    by simp_all
  then have "isSpace r" "r \<noteq> 10" by (simp_all add: blank_def)
  with Cons.IH [OF post Cons.prems(2)] show ?case by simp
qed

lemma expect_newline_None:
  "expect_newline input = None \<Longrightarrow>
     \<exists>post rest. list_all blank post \<and> input = post @ rest \<and> (rest = [] \<or> hd rest = 10)"
proof (induction input)
  case Nil
  then show ?case by simp
next
  case (Cons r input)
  show ?case
  proof (cases "r = 10")
    case True
    then show ?thesis by (intro exI [of _ "[]"] exI [of _ "r # input"]) simp
  next
    case False
    with Cons.prems have sp: "isSpace r" and "expect_newline input = None"
      by (auto split: if_splits)
    from Cons.IH [OF this(2)] obtain post rest where
      "list_all blank post" "input = post @ rest" "rest = [] \<or> hd rest = 10"
      by blast
    moreover from False sp have "blank r" by (simp add: blank_def)
    ultimately show ?thesis
      by (intro exI [of _ "r # post"] exI [of _ rest]) simp
  qed
qed

lemma Scanln_accepts:
  assumes "\<not> isSpace t" and "one_token_line t stdin"
  shows "Scanln stdin = (encode [t], None)"
proof -
  from assms(2) obtain pre post rest where
    pre: "list_all blank pre" and post: "list_all blank post" and rest: "rest = [] \<or> hd rest = 10"
    and stdin: "stdin = pre @ (t # post @ rest)"
    by (auto simp: one_token_line_def)
  have skip: "SkipSpace stdin = Inr (t # post @ rest)"
    unfolding stdin using assms(1) by (intro SkipSpace_blanks [OF pre]) simp
  have skip2: "SkipSpace (t # post @ rest) = Inr (t # post @ rest)"
    using SkipSpace_blanks [of "[]" "t # post @ rest"] assms(1) by simp
  have sp: "post @ rest = [] \<or> isSpace (hd (post @ rest))"
  proof (cases post)
    case Nil
    with rest show ?thesis by (auto simp: isSpace_def)
  next
    case (Cons p ps)
    with post have "blank p" by simp
    with Cons show ?thesis by (simp add: blank_def)
  qed
  have tw: "takeWhile (\<lambda>r. \<not> isSpace r) (t # post @ rest) = [t]"
    using assms(1) sp by (cases "post @ rest") auto
  have dw: "dropWhile (\<lambda>r. \<not> isSpace r) (t # post @ rest) = post @ rest"
    using assms(1) sp by (cases "post @ rest") auto
  show ?thesis
    by (simp add: Scanln_def skip token_def skip2 tw dw expect_newline_blanks [OF post rest]
        del: takeWhile.simps dropWhile.simps SkipSpace.simps)
qed

lemma Scanln_success:
  assumes "Scanln stdin = (answer, None)"
  shows "\<exists>tok pre post rest. answer = encode tok \<and> tok \<noteq> [] \<and> list_all (\<lambda>r. \<not> isSpace r) tok
     \<and> list_all blank pre \<and> list_all blank post \<and> (rest = [] \<or> hd rest = 10)
     \<and> stdin = pre @ tok @ post @ rest"
proof -
  from assms obtain rest0 where skip: "SkipSpace stdin = Inr rest0" and ne: "rest0 \<noteq> []"
    by (auto simp: Scanln_def split: sum.splits if_splits)
  from SkipSpace_Inr [OF skip] obtain pre where
    pre: "list_all blank pre" "stdin = pre @ rest0" "\<not> isSpace (hd rest0)"
    using ne by blast
  have skip2: "SkipSpace rest0 = Inr rest0"
    using SkipSpace_blanks [of "[]" rest0] pre(3) by simp
  let ?tok = "takeWhile (\<lambda>r. \<not> isSpace r) rest0"
  let ?rest' = "dropWhile (\<lambda>r. \<not> isSpace r) rest0"
  from assms skip ne skip2 have ans: "answer = encode ?tok" and nl: "expect_newline ?rest' = None"
    by (simp_all add: Scanln_def token_def)
  from expect_newline_None [OF nl] obtain post rest where
    post: "list_all blank post" "?rest' = post @ rest" "rest = [] \<or> hd rest = 10"
    by blast
  have tok_ne: "?tok \<noteq> []"
    using ne pre(3) by (cases rest0) auto
  have tok_all: "list_all (\<lambda>r. \<not> isSpace r) ?tok"
    by (auto simp: list_all_iff dest: set_takeWhileD)
  have "stdin = pre @ ?tok @ post @ rest"
    using pre(2) post(2) by (metis takeWhile_dropWhile_id)
  with ans tok_ne tok_all pre(1) post(1,3) show ?thesis by blast
qed

lemma not_space_yY: "\<not> isSpace 121" "\<not> isSpace 89"
  by (simp_all add: isSpace_def)

lemma Scanln_y_iff:
  "Scanln stdin = (''y'', None) \<longleftrightarrow> one_token_line 121 stdin"
proof
  assume "Scanln stdin = (''y'', None)"
  from Scanln_success [OF this] obtain tok pre post rest where
    h: "''y'' = encode tok" "list_all blank pre" "list_all blank post" "rest = [] \<or> hd rest = 10"
       "stdin = pre @ tok @ post @ rest"
    by blast
  from h(1) have "tok = [121]" using encode_y [of tok] by simp
  with h show "one_token_line 121 stdin" by (auto simp: one_token_line_def)
next
  assume "one_token_line 121 stdin"
  from Scanln_accepts [OF not_space_yY(1) this] show "Scanln stdin = (''y'', None)"
    using encode_y [of "[121]"] by simp
qed

lemma Scanln_Y_iff:
  "Scanln stdin = (''Y'', None) \<longleftrightarrow> one_token_line 89 stdin"
proof
  assume "Scanln stdin = (''Y'', None)"
  from Scanln_success [OF this] obtain tok pre post rest where
    h: "''Y'' = encode tok" "list_all blank pre" "list_all blank post" "rest = [] \<or> hd rest = 10"
       "stdin = pre @ tok @ post @ rest"
    by blast
  from h(1) have "tok = [89]" using encode_Y [of tok] by simp
  with h show "one_token_line 89 stdin" by (auto simp: one_token_line_def)
next
  assume "one_token_line 89 stdin"
  from Scanln_accepts [OF not_space_yY(2) this] show "Scanln stdin = (''Y'', None)"
    using encode_Y [of "[89]"] by simp
qed

lemma callback_true_iff:
  "fst (BeforeDeleteCallback scanned stoppedContainers)
     \<longleftrightarrow> snd scanned = None \<and> (fst scanned = ''y'' \<or> fst scanned = ''Y'')"
  by (auto simp: BeforeDeleteCallback_def Let_def split: option.splits if_splits)

lemma callback_on_stdin:
  "fst (BeforeDeleteCallback (Scanln stdin) stoppedContainers)
     \<longleftrightarrow> one_token_line 121 stdin \<or> one_token_line 89 stdin"
  unfolding callback_true_iff Scanln_y_iff [symmetric] Scanln_Y_iff [symmetric]
  by (cases "Scanln stdin") auto

section \<open>Facts about \<open>ProjectUp\<close>\<close>

lemma up_inv_foreground: "up_inv foreground"
  by (simp add: up_inv_def foreground_def signal_case_def)

lemma up_inv_step: "up_inv s \<Longrightarrow> step e s = Some s' \<Longrightarrow> up_inv s'"
  by (cases e)
    (auto simp: step_def up_inv_def running_def signal_case_def
      split: if_splits log_pc.splits select_pc.splits option.splits)

lemma up_inv_run: "up_inv s \<Longrightarrow> run es s = Some s' \<Longrightarrow> up_inv s'"
proof (induction es arbitrary: s)
  case Nil
  then show ?case by simp
next
  case (Cons e es)
  from Cons.prems(2) obtain s1 where s1: "step e s = Some s1" "run es s1 = Some s'"
    by (auto split: option.splits)
  from Cons.IH [OF up_inv_step [OF Cons.prems(1) s1(1)] s1(2)] show ?case .
qed

lemma signal_case_step: "signal_case s \<Longrightarrow> step e s = Some s' \<Longrightarrow> signal_case s'"
  by (cases e)
    (auto simp: step_def signal_case_def
      split: if_splits log_pc.splits select_pc.splits option.splits)

lemma TakeSignal_step: "step TakeSignal s = Some s' \<Longrightarrow> signal_case s'"
  by (auto simp: step_def signal_case_def split: if_splits)

lemma signal_case_run:
  "run es s = Some s' \<Longrightarrow> signal_case s \<or> TakeSignal \<in> set es \<Longrightarrow> signal_case s'"
proof (induction es arbitrary: s)
  case Nil
  then show ?case by simp
next
  case (Cons e es)
  from Cons.prems(1) obtain s1 where s1: "step e s = Some s1" "run es s1 = Some s'"
    by (auto split: option.splits)
  have "signal_case s1 \<or> TakeSignal \<in> set es"
    using Cons.prems(2) s1(1) signal_case_step [of s e s1] TakeSignal_step [of s s1]
    by auto
  from Cons.IH [OF s1(2) this] show ?case .
qed

lemma signal_case_finish:
  assumes "up_inv s" and "selector s = GotSignal"
  shows "\<exists>s'. run [DoPrintf, CancelFun, StopCall, StopReturn r, CleanupDone] s = Some s'
           \<and> main s' = Returned None \<and> cancelled s' \<and> stops s' = 1 \<and> exited s' = None"
proof -
  from assms have "main s = Waiting" "exited s = None" "stops s = 0"
    by (auto simp: up_inv_def signal_case_def)
  with assms(2) show ?thesis
    by (simp add: step_def running_def)
qed

lemma signal_case_progress:
  assumes "up_inv s" and "signal_case s"
  shows "\<exists>es' s'. run es' s = Some s' \<and> TakeErr \<notin> set es' \<and> LogrusFatal \<notin> set es'
           \<and> main s' = Returned None \<and> cancelled s' \<and> stops s' = 1 \<and> exited s' = None"
proof -
  from assms have live: "selector s = DoneSignal \<or> (main s = Waiting \<and> exited s = None)"
    by (auto simp: up_inv_def signal_case_def)
  from assms(2) consider
      "selector s = GotSignal" | "selector s = Printed" | "selector s = Cancelled"
    | "selector s = Stopping" | "selector s = Stopped" | "selector s = DoneSignal"
    by (auto simp: signal_case_def)
  then show ?thesis
  proof cases
    case 1
    with assms(1) live show ?thesis
      by (intro exI [of _ "[DoPrintf, CancelFun, StopCall, StopReturn None, CleanupDone]"])
        (simp add: step_def running_def up_inv_def)
  next
    case 2
    with assms(1) live show ?thesis
      by (intro exI [of _ "[CancelFun, StopCall, StopReturn None, CleanupDone]"])
        (simp add: step_def running_def up_inv_def)
  next
    case 3
    with assms(1) live show ?thesis
      by (intro exI [of _ "[StopCall, StopReturn None, CleanupDone]"])
        (simp add: step_def running_def up_inv_def)
  next
    case 4
    with assms(1) live show ?thesis
      by (intro exI [of _ "[StopReturn None, CleanupDone]"])
        (simp add: step_def running_def up_inv_def)
  next
    case 5
    with assms(1) live show ?thesis
      by (intro exI [of _ "[CleanupDone]"])
        (simp add: step_def running_def up_inv_def)
  next
    case 6
    with assms(1) show ?thesis
      by (intro exI [of _ "[]"]) (simp add: up_inv_def)
  qed
qed

lemma race_run:
  "run [LogReturns None, Signal, TakeErr, CleanupDone] foreground
     = Some \<lparr>main = Returned None, logger = Delivered, selector = DoneErr, signalChan = True,
             signals = 1, cancelled = False, stops = 0, exited = None\<rparr>"
  by (simp add: step_def running_def foreground_def)

lemma signal_run:
  "run [Signal, TakeSignal, DoPrintf, CancelFun, StopCall, StopReturn None, CleanupDone] foreground
     = Some \<lparr>main = Returned None, logger = Logging, selector = DoneSignal, signalChan = False,
             signals = 1, cancelled = True, stops = 1, exited = None\<rparr>"
  by (simp add: step_def running_def foreground_def)

section \<open>The properties\<close>

text \<open>
  C1. For every service whose restart policy is not one of \<open>""\<close>, \<open>"always"\<close>, \<open>"no"\<close>,
  \<open>"on-failure"\<close>, the conversion of that service ends the process; the loop, in
  whatever order it visits the services, ends the process there, and the cluster has
  received exactly the calls made for the services visited before it (none for this
  service, none for a later one). With the names of a Go map, which are distinct, no
  call carries the name of this service.
\<close>

theorem unknown_restart_fatal_before_submission:
  assumes "Restart service \<notin> {[], ''always'', ''no'', ''on-failure''}"
  shows "(\<exists>m. convert M name service = Fatal m)
       \<and> (\<exists>m. fst (kuber_range M client st (pre @ (name, service) # post)) = Fatal m)
       \<and> snd (kuber_range M client st (pre @ (name, service) # post))
           = snd (kuber_range M client st pre)
       \<and> (name \<notin> fst ` set pre \<and> name \<notin> call_name ` set (requests st) \<longrightarrow>
            name \<notin> call_name ` set (requests (snd
              (kuber_range M client st (pre @ (name, service) # post)))))"
proof -
  from assms obtain m where m: "convert M name service = Fatal m"
    using convert_bad_restart by blast
  from kuber_range_stops [OF m, of client st pre post] kuber_range_names [of M client st pre] m
  show ?thesis by auto
qed

theorem unknown_restart_fatal_before_submission_witness:
  "Restart \<lparr>Image = ''nginx'', Ports = [''80''], Restart = ''unless-stopped''\<rparr>
     \<notin> {[], ''always'', ''no'', ''on-failure''}
   \<and> (\<exists>m. fst (kuber_range (\<lambda>rc. Inr []) (\<lambda>h c. None) \<lparr>requests = [], stdout = []\<rparr>
         ([(''db'', \<lparr>Image = ''postgres'', Ports = [''5432''], Restart = ''always''\<rparr>)]
          @ (''web'', \<lparr>Image = ''nginx'', Ports = [''80''], Restart = ''unless-stopped''\<rparr>)
          # [(''cache'', \<lparr>Image = ''redis'', Ports = [], Restart = ''no''\<rparr>)])) = Fatal m)
   \<and> map call_name (requests (snd (kuber_range (\<lambda>rc. Inr []) (\<lambda>h c. None)
         \<lparr>requests = [], stdout = []\<rparr>
         ([(''db'', \<lparr>Image = ''postgres'', Ports = [''5432''], Restart = ''always''\<rparr>)]
          @ (''web'', \<lparr>Image = ''nginx'', Ports = [''80''], Restart = ''unless-stopped''\<rparr>)
          # [(''cache'', \<lparr>Image = ''redis'', Ports = [], Restart = ''no''\<rparr>)]))))
       = [''db'', ''db'']"
proof -
  have bad: "Restart \<lparr>Image = ''nginx'', Ports = [''80''], Restart = ''unless-stopped''\<rparr>
     \<notin> {[], ''always'', ''no'', ''on-failure''}"
    by simp
  have pre: "map call_name (requests (snd (kuber_range (\<lambda>rc. Inr []) (\<lambda>h c. None)
         \<lparr>requests = [], stdout = []\<rparr>
         [(''db'', \<lparr>Image = ''postgres'', Ports = [''5432''], Restart = ''always''\<rparr>)])))
       = [''db'', ''db'']"
    by (simp add: convert_eval Atoi_5432 submit_def call_name_def)
  from unknown_restart_fatal_before_submission [OF bad, of "\<lambda>rc. Inr []" "''web''" "\<lambda>h c. None"
      "\<lparr>requests = [], stdout = []\<rparr>"
      "[(''db'', \<lparr>Image = ''postgres'', Ports = [''5432''], Restart = ''always''\<rparr>)]"
      "[(''cache'', \<lparr>Image = ''redis'', Ports = [], Restart = ''no''\<rparr>)]"] bad pre
  show ?thesis by simp
qed

text \<open>
  C2. For every service whose port list contains a string that is not a decimal
  integer, the conversion of that service ends the process; the loop ends the process
  there, and the cluster has received exactly the calls made for the services visited
  before it, none of them for this service.
\<close>

theorem bad_port_fatal_before_submission:
  assumes "port \<in> set (Ports service)" and "\<not> is_decimal_integer port"
  shows "(\<exists>m. convert M name service = Fatal m)
       \<and> (\<exists>m. fst (kuber_range M client st (pre @ (name, service) # post)) = Fatal m)
       \<and> snd (kuber_range M client st (pre @ (name, service) # post))
           = snd (kuber_range M client st pre)
       \<and> (name \<notin> fst ` set pre \<and> name \<notin> call_name ` set (requests st) \<longrightarrow>
            name \<notin> call_name ` set (requests (snd
              (kuber_range M client st (pre @ (name, service) # post)))))"
proof -
  from assms(2) obtain err where "Atoi port = Inl err"
    using Atoi_not_decimal by blast
  with assms(1) obtain m where m: "convert M name service = Fatal m"
    using convert_bad_port by blast
  from kuber_range_stops [OF m, of client st pre post] kuber_range_names [of M client st pre] m
  show ?thesis by auto
qed

theorem bad_port_fatal_before_submission_witness:
  "''8080:80'' \<in> set (Ports \<lparr>Image = ''nginx'', Ports = [''80'', ''8080:80''], Restart = ''always''\<rparr>)
   \<and> \<not> is_decimal_integer ''8080:80''
   \<and> (\<exists>m. fst (kuber_range (\<lambda>rc. Inr []) (\<lambda>h c. None) \<lparr>requests = [], stdout = []\<rparr>
         ([(''db'', \<lparr>Image = ''postgres'', Ports = [''5432''], Restart = ''always''\<rparr>)]
          @ (''web'', \<lparr>Image = ''nginx'', Ports = [''80'', ''8080:80''], Restart = ''always''\<rparr>)
          # [(''cache'', \<lparr>Image = ''redis'', Ports = [], Restart = ''no''\<rparr>)])) = Fatal m)
   \<and> map call_name (requests (snd (kuber_range (\<lambda>rc. Inr []) (\<lambda>h c. None)
         \<lparr>requests = [], stdout = []\<rparr>
         ([(''db'', \<lparr>Image = ''postgres'', Ports = [''5432''], Restart = ''always''\<rparr>)]
          @ (''web'', \<lparr>Image = ''nginx'', Ports = [''80'', ''8080:80''], Restart = ''always''\<rparr>)
          # [(''cache'', \<lparr>Image = ''redis'', Ports = [], Restart = ''no''\<rparr>)]))))
       = [''db'', ''db'']"
proof -
  have mem: "''8080:80''
      \<in> set (Ports \<lparr>Image = ''nginx'', Ports = [''80'', ''8080:80''], Restart = ''always''\<rparr>)"
    by simp
  have pre: "map call_name (requests (snd (kuber_range (\<lambda>rc. Inr []) (\<lambda>h c. None)
         \<lparr>requests = [], stdout = []\<rparr>
         [(''db'', \<lparr>Image = ''postgres'', Ports = [''5432''], Restart = ''always''\<rparr>)])))
       = [''db'', ''db'']"
    by (simp add: convert_eval Atoi_5432 submit_def call_name_def)
  from bad_port_fatal_before_submission [OF mem not_decimal_8080_80, of "\<lambda>rc. Inr []" "''web''"
      "\<lambda>h c. None" "\<lparr>requests = [], stdout = []\<rparr>"
      "[(''db'', \<lparr>Image = ''postgres'', Ports = [''5432''], Restart = ''always''\<rparr>)]"
      "[(''cache'', \<lparr>Image = ''redis'', Ports = [], Restart = ''no''\<rparr>)]"]
    mem not_decimal_8080_80 pre
  show ?thesis by simp
qed

text \<open>
  C3. The replication controller and the service built for a service carry the same
  label selector, the map \<open>{"service": name}\<close>: in the two literals, in the two
  descriptors the loop body hands to the cluster, and so in every call the cluster
  receives.
\<close>

theorem selectors_identical:
  "ReplicationControllerSpec_Selector (ReplicationController_Spec (new_rc name service))
     = [''service'' \<mapsto> name]
   \<and> ServiceSpec_Selector (Service_Spec (new_sc name)) = [''service'' \<mapsto> name]
   \<and> (\<forall>rc sc. convert M name service = Return (rc, sc) \<longrightarrow>
         ReplicationControllerSpec_Selector (ReplicationController_Spec rc) = [''service'' \<mapsto> name]
       \<and> ServiceSpec_Selector (Service_Spec sc) = [''service'' \<mapsto> name]
       \<and> ReplicationControllerSpec_Selector (ReplicationController_Spec rc)
           = ServiceSpec_Selector (Service_Spec sc))
   \<and> (\<forall>c \<in> set (requests (snd (kuber_range M client \<lparr>requests = [], stdout = []\<rparr> configs))).
         call_selector c = [''service'' \<mapsto> call_name c])"
proof -
  have a: "ReplicationControllerSpec_Selector (ReplicationController_Spec (new_rc name service))
     = [''service'' \<mapsto> name]"
    by (simp add: new_rc_def)
  have b: "ServiceSpec_Selector (Service_Spec (new_sc name)) = [''service'' \<mapsto> name]"
    by (simp add: new_sc_def)
  have c: "\<forall>c \<in> set (requests (snd (kuber_range M client \<lparr>requests = [], stdout = []\<rparr> configs))).
         call_selector c = [''service'' \<mapsto> call_name c]"
    by (rule kuber_range_selectors) simp
  from a b c convert_selectors [of M name service] show ?thesis by simp
qed

theorem selectors_identical_witness:
  "\<exists>rc sc. convert (\<lambda>rc. Inr []) ''web''
         \<lparr>Image = ''nginx'', Ports = [''80'', ''443''], Restart = ''on-failure''\<rparr>
       = Return (rc, sc)
     \<and> ReplicationControllerSpec_Selector (ReplicationController_Spec rc) = [''service'' \<mapsto> ''web'']
     \<and> ServiceSpec_Selector (Service_Spec sc) = [''service'' \<mapsto> ''web'']"
  using convert_web
    selectors_identical [of "''web''"
      "\<lparr>Image = ''nginx'', Ports = [''80'', ''443''], Restart = ''on-failure''\<rparr>"
      "\<lambda>rc. Inr []" "\<lambda>h c. None" "[]"]
  by blast

text \<open>
  C4. When \<open>Atoi\<close> accepts every port string of a service, both port loops succeed,
  the list of service ports and the list of container ports have the length of the
  port list, and at every index the service port number is the container port number,
  which is the integer \<open>Atoi\<close> reads from the port string at that index. These are the
  lists the two descriptors carry: when the restart policy is a known one the loop body
  builds a replication controller with the first list and a service with the second,
  and returns them unless \<open>MarshalIndent\<close> fails on the replication controller.
\<close>

theorem service_ports_mirror_container_ports:
  assumes "list_all (\<lambda>p. \<exists>n. Atoi p = Inr n) (Ports service)"
  shows "\<exists>cps sps.
           container_ports name (Ports service) [] = Inr cps
         \<and> service_ports name (Ports service) [] = Inr sps
         \<and> length sps = length cps \<and> length cps = length (Ports service)
         \<and> (\<forall>i < length (Ports service).
               ServicePort_Port (sps ! i) = ContainerPort_ContainerPort (cps ! i)
             \<and> Atoi (Ports service ! i) = Inr (ContainerPort_ContainerPort (cps ! i)))
         \<and> (\<forall>rc sc. convert M name service = Return (rc, sc) \<longrightarrow>
               map Container_Ports (PodSpec_Containers (PodTemplateSpec_Spec
                 (Template (ReplicationController_Spec rc)))) = [cps]
             \<and> ServiceSpec_Ports (Service_Spec sc) = sps)
         \<and> (Restart service \<in> {[], ''always'', ''no'', ''on-failure''} \<longrightarrow>
              (\<exists>rc sc.
                 map Container_Ports (PodSpec_Containers (PodTemplateSpec_Spec
                   (Template (ReplicationController_Spec rc)))) = [cps]
               \<and> ServiceSpec_Ports (Service_Spec sc) = sps
               \<and> convert M name service =
                   (case M rc of
                      Inl err \<Rightarrow>
                        Fatal (Sprintf ''Failed to marshal the replication controller: %v'' [ArgErr err])
                    | Inr data \<Rightarrow> Return (rc, sc))))"
proof -
  from assms obtain cps where cps: "container_ports name (Ports service) [] = Inr cps"
    using container_ports_ok by blast
  from assms obtain sps where sps: "service_ports name (Ports service) [] = Inr sps"
    using service_ports_ok by blast
  have c: "map (\<lambda>c. Inr (ContainerPort_ContainerPort c)) cps = map Atoi (Ports service)"
    using container_ports_Inr [OF cps] by simp
  have s: "map (\<lambda>c. Inr (ServicePort_Port c)) sps = map Atoi (Ports service)"
    using service_ports_Inr [OF sps] by simp
  have len: "length cps = length (Ports service)" "length sps = length (Ports service)"
    using map_Inr_eq_nth(1) [OF c] map_Inr_eq_nth(1) [OF s] by simp_all
  have nth: "\<forall>i < length (Ports service).
               ServicePort_Port (sps ! i) = ContainerPort_ContainerPort (cps ! i)
             \<and> Atoi (Ports service ! i) = Inr (ContainerPort_ContainerPort (cps ! i))"
  proof (intro allI impI)
    fix i assume i: "i < length (Ports service)"
    from map_Inr_eq_nth(2) [OF c i] map_Inr_eq_nth(2) [OF s i]
    show "ServicePort_Port (sps ! i) = ContainerPort_ContainerPort (cps ! i)
             \<and> Atoi (Ports service ! i) = Inr (ContainerPort_ContainerPort (cps ! i))"
      by simp
  qed
  have built: "\<forall>rc sc. convert M name service = Return (rc, sc) \<longrightarrow>
               map Container_Ports (PodSpec_Containers (PodTemplateSpec_Spec
                 (Template (ReplicationController_Spec rc)))) = [cps]
             \<and> ServiceSpec_Ports (Service_Spec sc) = sps"
    using convert_ports [OF _ cps sps] by blast
  have returns: "Restart service \<in> {[], ''always'', ''no'', ''on-failure''} \<longrightarrow>
              (\<exists>rc sc.
                 map Container_Ports (PodSpec_Containers (PodTemplateSpec_Spec
                   (Template (ReplicationController_Spec rc)))) = [cps]
               \<and> ServiceSpec_Ports (Service_Spec sc) = sps
               \<and> convert M name service =
                   (case M rc of
                      Inl err \<Rightarrow>
                        Fatal (Sprintf ''Failed to marshal the replication controller: %v'' [ArgErr err])
                    | Inr data \<Rightarrow> Return (rc, sc)))"
    using convert_when_ports_parse [OF cps sps] by blast
  from cps sps len nth built returns show ?thesis
    by (intro exI [of _ cps] exI [of _ sps] conjI) simp_all
qed

theorem service_ports_mirror_container_ports_witness:
  "list_all (\<lambda>p. \<exists>n. Atoi p = Inr n)
      (Ports \<lparr>Image = ''nginx'', Ports = [''80'', ''443''], Restart = ''on-failure''\<rparr>)
   \<and> Restart \<lparr>Image = ''nginx'', Ports = [''80'', ''443''], Restart = ''on-failure''\<rparr>
       \<in> {[], ''always'', ''no'', ''on-failure''}
   \<and> (\<exists>rc sc. convert (\<lambda>rc. Inr []) ''web''
           \<lparr>Image = ''nginx'', Ports = [''80'', ''443''], Restart = ''on-failure''\<rparr>
         = Return (rc, sc)
       \<and> map (map ContainerPort_ContainerPort \<circ> Container_Ports)
           (PodSpec_Containers (PodTemplateSpec_Spec (Template (ReplicationController_Spec rc))))
           = [[80, 443]]
       \<and> map ServicePort_Port (ServiceSpec_Ports (Service_Spec sc)) = [80, 443])"
proof -
  let ?service = "\<lparr>Image = ''nginx'', Ports = [''80'', ''443''], Restart = ''on-failure''\<rparr>"
  let ?M = "\<lambda>rc :: ReplicationController. Inr [] :: string + string"
  have h: "list_all (\<lambda>p. \<exists>n. Atoi p = Inr n) (Ports ?service)"
    by (simp add: Atoi_80 Atoi_443)
  have k: "Restart ?service \<in> {[], ''always'', ''no'', ''on-failure''}"
    by simp
  from service_ports_mirror_container_ports [OF h, of "''web''" ?M]
  obtain cps sps where
    len: "length sps = length cps" "length cps = length (Ports ?service)"
    and nth: "\<forall>i < length (Ports ?service).
               ServicePort_Port (sps ! i) = ContainerPort_ContainerPort (cps ! i)
             \<and> Atoi (Ports ?service ! i) = Inr (ContainerPort_ContainerPort (cps ! i))"
    and ret: "Restart ?service \<in> {[], ''always'', ''no'', ''on-failure''} \<longrightarrow>
              (\<exists>rc sc.
                 map Container_Ports (PodSpec_Containers (PodTemplateSpec_Spec
                   (Template (ReplicationController_Spec rc)))) = [cps]
               \<and> ServiceSpec_Ports (Service_Spec sc) = sps
               \<and> convert ?M ''web'' ?service =
                   (case ?M rc of
                      Inl err \<Rightarrow>
                        Fatal (Sprintf ''Failed to marshal the replication controller: %v'' [ArgErr err])
                    | Inr data \<Rightarrow> Return (rc, sc)))"
    by (elim exE conjE)
  from ret [rule_format, OF k] obtain rc sc where
    rc: "map Container_Ports (PodSpec_Containers (PodTemplateSpec_Spec
                   (Template (ReplicationController_Spec rc)))) = [cps]"
    and sc: "ServiceSpec_Ports (Service_Spec sc) = sps"
    and conv0: "convert ?M ''web'' ?service =
                   (case ?M rc of
                      Inl err \<Rightarrow>
                        Fatal (Sprintf ''Failed to marshal the replication controller: %v'' [ArgErr err])
                    | Inr data \<Rightarrow> Return (rc, sc))"
    by (elim exE conjE)
  from conv0 have conv: "convert ?M ''web'' ?service = Return (rc, sc)"
    by simp
  have l2: "length cps = 2" "length sps = 2" using len by simp_all
  have n0: "ContainerPort_ContainerPort (cps ! 0) = 80" "ServicePort_Port (sps ! 0) = 80"
    using nth [rule_format, of 0] by (simp_all add: Atoi_80)
  have n1: "ContainerPort_ContainerPort (cps ! 1) = 443" "ServicePort_Port (sps ! 1) = 443"
    using nth [rule_format, of 1] by (simp_all add: Atoi_443)
  have two: "map f xs = [f (xs ! 0), f (xs ! 1)]" if "length xs = 2" for f :: "'a \<Rightarrow> int" and xs
    using that by (cases xs; cases "tl xs") auto
  have cs: "map ContainerPort_ContainerPort cps = [80, 443]"
    using two [OF l2(1), of ContainerPort_ContainerPort] n0 n1 by simp
  have ss: "map ServicePort_Port sps = [80, 443]"
    using two [OF l2(2), of ServicePort_Port] n0 n1 by simp
  have a: "map (map ContainerPort_ContainerPort \<circ> Container_Ports)
           (PodSpec_Containers (PodTemplateSpec_Spec (Template (ReplicationController_Spec rc))))
           = [[80, 443]]"
  proof -
    have "map (map ContainerPort_ContainerPort \<circ> Container_Ports)
           (PodSpec_Containers (PodTemplateSpec_Spec (Template (ReplicationController_Spec rc))))
        = map (map ContainerPort_ContainerPort) (map Container_Ports
           (PodSpec_Containers (PodTemplateSpec_Spec (Template (ReplicationController_Spec rc)))))"
      by simp
    also have "\<dots> = [[80, 443]]" unfolding rc using cs by simp
    finally show ?thesis .
  qed
  have b: "map ServicePort_Port (ServiceSpec_Ports (Service_Spec sc)) = [80, 443]"
    unfolding sc by (rule ss)
  from conv a b have "\<exists>rc sc. convert ?M ''web'' ?service = Return (rc, sc)
       \<and> map (map ContainerPort_ContainerPort \<circ> Container_Ports)
           (PodSpec_Containers (PodTemplateSpec_Spec (Template (ReplicationController_Spec rc))))
           = [[80, 443]]
       \<and> map ServicePort_Port (ServiceSpec_Ports (Service_Spec sc)) = [80, 443]"
    by (intro exI [of _ rc] exI [of _ sc] conjI)
  with h k show ?thesis by (intro conjI)
qed

text \<open>
  C5. The \<open>switch\<close> on the restart policy: \<open>""\<close> and \<open>"always"\<close> give \<open>Always\<close>, \<open>"no"\<close>
  gives \<open>Never\<close>, \<open>"on-failure"\<close> gives \<open>OnFailure\<close>; every other string ends the
  process with the message naming the policy and the service, and no other string
  gives a policy. The replication controller of a service that converts carries the
  policy the switch gives.
\<close>

theorem restart_policy_mapping:
  "restart_policy name [] = Inr RestartPolicyAlways
   \<and> restart_policy name ''always'' = Inr RestartPolicyAlways
   \<and> restart_policy name ''no'' = Inr RestartPolicyNever
   \<and> restart_policy name ''on-failure'' = Inr RestartPolicyOnFailure
   \<and> (\<forall>restart. restart \<notin> {[], ''always'', ''no'', ''on-failure''} \<longrightarrow>
         restart_policy name restart
           = Inl (Sprintf ''Unknown restart policy %s for service %s''
                   [ArgStr restart, ArgStr name]))
   \<and> (\<forall>restart pol. restart_policy name restart = Inr pol \<longrightarrow>
         restart \<in> {[], ''always'', ''no'', ''on-failure''})
   \<and> (\<forall>rc sc. convert M name service = Return (rc, sc) \<longrightarrow>
         (\<exists>pol. restart_policy name (Restart service) = Inr pol
          \<and> PodSpec_RestartPolicy (PodTemplateSpec_Spec (Template (ReplicationController_Spec rc)))
              = Some pol))"
proof -
  have known: "restart_policy name [] = Inr RestartPolicyAlways"
    "restart_policy name ''always'' = Inr RestartPolicyAlways"
    "restart_policy name ''no'' = Inr RestartPolicyNever"
    "restart_policy name ''on-failure'' = Inr RestartPolicyOnFailure"
    by (simp_all add: restart_policy_def)
  have unknown: "\<forall>restart. restart \<notin> {[], ''always'', ''no'', ''on-failure''} \<longrightarrow>
         restart_policy name restart
           = Inl (Sprintf ''Unknown restart policy %s for service %s''
                   [ArgStr restart, ArgStr name])"
    by (simp add: restart_policy_def)
  have only: "\<forall>restart pol. restart_policy name restart = Inr pol \<longrightarrow>
         restart \<in> {[], ''always'', ''no'', ''on-failure''}"
    by (auto simp: restart_policy_def split: if_splits)
  from known unknown only convert_restart [of M name service] show ?thesis by blast
qed

theorem restart_policy_mapping_witness:
  "''unless-stopped'' \<notin> {[], ''always'', ''no'', ''on-failure''}
   \<and> restart_policy ''web'' ''unless-stopped''
       = Inl (Sprintf ''Unknown restart policy %s for service %s''
               [ArgStr ''unless-stopped'', ArgStr ''web''])
   \<and> restart_policy ''web'' ''on-failure'' = Inr RestartPolicyOnFailure
   \<and> (\<exists>rc sc. convert (\<lambda>rc. Inr []) ''web''
           \<lparr>Image = ''nginx'', Ports = [''80'', ''443''], Restart = ''on-failure''\<rparr>
         = Return (rc, sc)
       \<and> PodSpec_RestartPolicy (PodTemplateSpec_Spec (Template (ReplicationController_Spec rc)))
           = Some RestartPolicyOnFailure)"
proof -
  have h: "''unless-stopped'' \<notin> {[], ''always'', ''no'', ''on-failure''}" by simp
  note inst = restart_policy_mapping [of "''web''" "\<lambda>rc. Inr []"
      "\<lparr>Image = ''nginx'', Ports = [''80'', ''443''], Restart = ''on-failure''\<rparr>"]
  from inst have unknown: "\<forall>restart. restart \<notin> {[], ''always'', ''no'', ''on-failure''} \<longrightarrow>
         restart_policy ''web'' restart
           = Inl (Sprintf ''Unknown restart policy %s for service %s''
                   [ArgStr restart, ArgStr ''web''])"
    apply -
    apply (elim conjE)
    apply assumption
    done
  from unknown [rule_format, OF h] have a: "restart_policy ''web'' ''unless-stopped''
       = Inl (Sprintf ''Unknown restart policy %s for service %s''
               [ArgStr ''unless-stopped'', ArgStr ''web''])"
    .
  from inst have b: "restart_policy ''web'' ''on-failure'' = Inr RestartPolicyOnFailure"
    apply -
    apply (elim conjE)
    apply assumption
    done
  from inst have built: "\<forall>rc sc. convert (\<lambda>rc. Inr []) ''web''
           \<lparr>Image = ''nginx'', Ports = [''80'', ''443''], Restart = ''on-failure''\<rparr>
         = Return (rc, sc) \<longrightarrow>
         (\<exists>pol. restart_policy ''web''
             (Restart \<lparr>Image = ''nginx'', Ports = [''80'', ''443''], Restart = ''on-failure''\<rparr>)
           = Inr pol
          \<and> PodSpec_RestartPolicy (PodTemplateSpec_Spec (Template (ReplicationController_Spec rc)))
              = Some pol)"
    apply -
    apply (elim conjE)
    apply assumption
    done
  from convert_web obtain rc sc where conv:
    "convert (\<lambda>rc. Inr []) ''web''
       \<lparr>Image = ''nginx'', Ports = [''80'', ''443''], Restart = ''on-failure''\<rparr> = Return (rc, sc)"
    by (elim exE)
  from built conv obtain pol where
    pol: "restart_policy ''web''
            (Restart \<lparr>Image = ''nginx'', Ports = [''80'', ''443''], Restart = ''on-failure''\<rparr>)
          = Inr pol"
    and rp: "PodSpec_RestartPolicy (PodTemplateSpec_Spec (Template (ReplicationController_Spec rc)))
          = Some pol"
    by (elim allE impE exE conjE)
  from pol b have "pol = RestartPolicyOnFailure" by simp
  with rp conv have c: "\<exists>rc sc. convert (\<lambda>rc. Inr []) ''web''
           \<lparr>Image = ''nginx'', Ports = [''80'', ''443''], Restart = ''on-failure''\<rparr>
         = Return (rc, sc)
       \<and> PodSpec_RestartPolicy (PodTemplateSpec_Spec (Template (ReplicationController_Spec rc)))
           = Some RestartPolicyOnFailure"
    by (intro exI conjI) simp_all
  from h a b c show ?thesis by (intro conjI)
qed

text \<open>
  C6. If some argument of \<open>ProjectScale\<close> does not have the form \<open>name=integer\<close> (it has
  no separator \<open>=\<close>, or what follows the separator is not a decimal integer), the
  function returns an exit error with code 2 and the library's \<open>Scale\<close> is not called.
\<close>

theorem malformed_scale_argument_exit_2:
  assumes "arg \<in> set args" and "\<not> scale_form arg"
  shows "\<exists>msg. ProjectScale p_Scale timeout args = (Some (NewExitError msg 2), [])"
proof -
  from scale_args_rejects [OF assms] obtain e where e: "scale_args args Map.empty = Inl e"
    by blast
  with scale_args_code obtain msg where "e = NewExitError msg 2" by blast
  with e show ?thesis by (simp add: ProjectScale_def)
qed

theorem malformed_scale_argument_exit_2_witness:
  "''db'' \<in> set [''web=3'', ''db''] \<and> \<not> scale_form ''db''
   \<and> (\<exists>msg. ProjectScale (\<lambda>timeout servicesScale. None) 10 [''web=3'', ''db'']
          = (Some (NewExitError msg 2), []))
   \<and> ''db=two'' \<in> set [''web=3'', ''db=two''] \<and> \<not> scale_form ''db=two''
   \<and> (\<exists>msg. ProjectScale (\<lambda>timeout servicesScale. None) 10 [''web=3'', ''db=two'']
          = (Some (NewExitError msg 2), []))"
proof -
  have m1: "''db'' \<in> set [''web=3'', ''db'']" by simp
  have m2: "''db=two'' \<in> set [''web=3'', ''db=two'']" by simp
  from malformed_scale_argument_exit_2 [OF m1 not_scale_form_db]
    malformed_scale_argument_exit_2 [OF m2 not_scale_form_db_two]
    m1 m2 not_scale_form_db not_scale_form_db_two
  show ?thesis by (intro conjI)
qed

text \<open>
  C7. What the cluster answers to a call never changes the course of the loop: whatever
  the client answers, the calls made are those of the services visited up to the first
  one that does not convert, every error answered is printed, in order, and the loop
  ends as it does with a client that never fails. So when every service converts, the
  loop returns, and the replication controller and the service of every one of them
  have been submitted, also when calls fail.
\<close>

theorem submission_failure_does_not_abort:
  "requests (snd (kuber_range M client st configs))
     = requests st @ descriptors M (takeWhile (converts M) configs)
   \<and> stdout (snd (kuber_range M client st configs))
     = stdout st @ answers client (requests st) (descriptors M (takeWhile (converts M) configs))
   \<and> fst (kuber_range M client st configs) = fst (kuber_range M (\<lambda>h c. None) st configs)
   \<and> (list_all (converts M) configs \<longrightarrow>
        fst (kuber_range M client st configs) = Return ()
      \<and> requests (snd (kuber_range M client st configs)) = requests st @ descriptors M configs
      \<and> length (descriptors M configs) = 2 * length configs)"
proof -
  note calls = kuber_range_calls [of M client st configs]
  have same: "fst (kuber_range M client st configs) = fst (kuber_range M (\<lambda>h c. None) st configs)"
    by (rule kuber_range_result)
  have all: "list_all (converts M) configs \<longrightarrow>
        fst (kuber_range M client st configs) = Return ()
      \<and> requests (snd (kuber_range M client st configs)) = requests st @ descriptors M configs
      \<and> length (descriptors M configs) = 2 * length configs"
  proof
    assume h: "list_all (converts M) configs"
    then have t: "takeWhile (converts M) configs = configs"
      by (simp add: list_all_iff)
    from kuber_range_all [OF h, of client st] calls [unfolded t]
    show "fst (kuber_range M client st configs) = Return ()
      \<and> requests (snd (kuber_range M client st configs)) = requests st @ descriptors M configs
      \<and> length (descriptors M configs) = 2 * length configs"
      by simp
  qed
  from calls same all show ?thesis by (intro conjI) simp_all
qed

theorem submission_failure_does_not_abort_witness:
  "list_all (converts (\<lambda>rc. Inr []))
      [(''db'', \<lparr>Image = ''postgres'', Ports = [''5432''], Restart = ''always''\<rparr>),
       (''web'', \<lparr>Image = ''nginx'', Ports = [''80'', ''443''], Restart = ''on-failure''\<rparr>)]
   \<and> fst (kuber_range (\<lambda>rc. Inr []) (\<lambda>h c. Some ''connection refused'')
        \<lparr>requests = [], stdout = []\<rparr>
      [(''db'', \<lparr>Image = ''postgres'', Ports = [''5432''], Restart = ''always''\<rparr>),
       (''web'', \<lparr>Image = ''nginx'', Ports = [''80'', ''443''], Restart = ''on-failure''\<rparr>)])
       = Return ()
   \<and> map call_name (requests (snd (kuber_range (\<lambda>rc. Inr []) (\<lambda>h c. Some ''connection refused'')
        \<lparr>requests = [], stdout = []\<rparr>
      [(''db'', \<lparr>Image = ''postgres'', Ports = [''5432''], Restart = ''always''\<rparr>),
       (''web'', \<lparr>Image = ''nginx'', Ports = [''80'', ''443''], Restart = ''on-failure''\<rparr>)])))
       = [''db'', ''db'', ''web'', ''web'']
   \<and> stdout (snd (kuber_range (\<lambda>rc. Inr []) (\<lambda>h c. Some ''connection refused'')
        \<lparr>requests = [], stdout = []\<rparr>
      [(''db'', \<lparr>Image = ''postgres'', Ports = [''5432''], Restart = ''always''\<rparr>),
       (''web'', \<lparr>Image = ''nginx'', Ports = [''80'', ''443''], Restart = ''on-failure''\<rparr>)]))
       = [''connection refused'', ''connection refused'', ''connection refused'',
          ''connection refused'']"
proof -
  let ?M = "\<lambda>rc :: ReplicationController. Inr [] :: string + string"
  let ?client = "\<lambda>(h :: api_call list) (c :: api_call). Some ''connection refused''"
  let ?st = "\<lparr>requests = [], stdout = []\<rparr>"
  let ?configs = "[(''db'', \<lparr>Image = ''postgres'', Ports = [''5432''], Restart = ''always''\<rparr>),
       (''web'', \<lparr>Image = ''nginx'', Ports = [''80'', ''443''], Restart = ''on-failure''\<rparr>)]"
  have h: "list_all (converts ?M) ?configs"
    using convert_db convert_web by (auto simp: converts_def)
  then have t: "takeWhile (converts ?M) ?configs = ?configs"
    by simp
  have d: "map call_name (descriptors ?M ?configs) = [''db'', ''db'', ''web'', ''web'']"
    by (simp add: descriptors_def convert_eval Atoi_5432 Atoi_80 Atoi_443 call_name_def)
  have a: "answers ?client [] (descriptors ?M ?configs)
       = [''connection refused'', ''connection refused'', ''connection refused'',
          ''connection refused'']"
    by (simp add: descriptors_def convert_eval Atoi_5432 Atoi_80 Atoi_443)
  note inst = submission_failure_does_not_abort [of ?M ?client ?st ?configs, unfolded t]
  from inst have r: "requests (snd (kuber_range ?M ?client ?st ?configs))
      = requests ?st @ descriptors ?M ?configs"
    apply -
    apply (elim conjE)
    apply assumption
    done
  from inst have s: "stdout (snd (kuber_range ?M ?client ?st ?configs))
      = stdout ?st @ answers ?client (requests ?st) (descriptors ?M ?configs)"
    apply -
    apply (elim conjE)
    apply assumption
    done
  from inst have "list_all (converts ?M) ?configs \<longrightarrow>
        fst (kuber_range ?M ?client ?st ?configs) = Return ()
      \<and> requests (snd (kuber_range ?M ?client ?st ?configs)) = requests ?st @ descriptors ?M ?configs
      \<and> length (descriptors ?M ?configs) = 2 * length ?configs"
    apply -
    apply (elim conjE)
    apply assumption
    done
  from this [rule_format, OF h] have f: "fst (kuber_range ?M ?client ?st ?configs) = Return ()"
    by (rule conjunct1)
  have r': "map call_name (requests (snd (kuber_range ?M ?client ?st ?configs)))
      = [''db'', ''db'', ''web'', ''web'']"
    unfolding r using d by simp
  have s': "stdout (snd (kuber_range ?M ?client ?st ?configs))
      = [''connection refused'', ''connection refused'', ''connection refused'',
          ''connection refused'']"
    unfolding s using a by simp
  from h f r' s' show ?thesis by (intro conjI)
qed

text \<open>
  C8. As amended. \<open>ProjectDelete\<close> registers the confirmation callback unless the force
  flag is set. The callback returns true exactly when \<open>Scanln\<close> reports no error and
  the word it stored in \<open>answer\<close> is \<open>"y"\<close> or \<open>"Y"\<close>: that is, when the line holds the
  single word \<open>y\<close> or \<open>Y\<close>, with or without blanks around it. For every other word, and
  whenever \<open>Scanln\<close> reports an error, it returns false. The library's \<open>Delete\<close> is
  handed this callback: what it answers on the callback's verdict is what
  \<open>ProjectDelete\<close> returns, as an exit error with code 1.
\<close>

theorem delete_confirmation_token_y:
  "Delete_BeforeDeleteCallback (delete_options v False) = Some BeforeDeleteCallback
   \<and> Delete_BeforeDeleteCallback (delete_options v True) = None
   \<and> (fst (BeforeDeleteCallback (answer, err) stoppedContainers)
        \<longleftrightarrow> err = None \<and> (answer = ''y'' \<or> answer = ''Y''))
   \<and> (err \<noteq> None \<longrightarrow> \<not> fst (BeforeDeleteCallback (answer, err) stoppedContainers))
   \<and> (answer \<noteq> ''y'' \<and> answer \<noteq> ''Y'' \<longrightarrow>
        \<not> fst (BeforeDeleteCallback (answer, err) stoppedContainers))
   \<and> (fst (BeforeDeleteCallback (Scanln stdin) stoppedContainers)
        \<longleftrightarrow> one_token_line 121 stdin \<or> one_token_line 89 stdin)
   \<and> ProjectDelete
        (\<lambda>options args.
           case Delete_BeforeDeleteCallback options of
             None \<Rightarrow> verdict True
           | Some callback \<Rightarrow> verdict (fst (callback (Scanln stdin) stoppedContainers)))
        v False args
       = (case verdict (one_token_line 121 stdin \<or> one_token_line 89 stdin) of
            Some failure \<Rightarrow> Some (NewExitError (Text failure) 1)
          | None \<Rightarrow> None)
   \<and> ProjectDelete
        (\<lambda>options args.
           case Delete_BeforeDeleteCallback options of
             None \<Rightarrow> verdict True
           | Some callback \<Rightarrow> verdict (fst (callback (Scanln stdin) stoppedContainers)))
        v True args
       = (case verdict True of
            Some failure \<Rightarrow> Some (NewExitError (Text failure) 1)
          | None \<Rightarrow> None)"
proof -
  have reg: "Delete_BeforeDeleteCallback (delete_options v False) = Some BeforeDeleteCallback"
    "Delete_BeforeDeleteCallback (delete_options v True) = None"
    by (simp_all add: delete_options_def)
  have outcome: "fst (BeforeDeleteCallback (answer, err) stoppedContainers)
        \<longleftrightarrow> err = None \<and> (answer = ''y'' \<or> answer = ''Y'')"
    using callback_true_iff [of "(answer, err)" stoppedContainers] by simp
  have on_stdin: "fst (BeforeDeleteCallback (Scanln stdin) stoppedContainers)
        \<longleftrightarrow> one_token_line 121 stdin \<or> one_token_line 89 stdin"
    by (rule callback_on_stdin)
  from reg outcome on_stdin show ?thesis
    by (simp add: ProjectDelete_def)
qed

theorem delete_confirmation_token_y_witness:
  "one_token_line 121 [32, 121, 32, 10]
   \<and> fst (BeforeDeleteCallback (Scanln [32, 121, 32, 10]) [''web_1'', ''db_1''])
   \<and> \<not> fst (BeforeDeleteCallback (''yes'', None) [''web_1'', ''db_1''])
   \<and> \<not> fst (BeforeDeleteCallback (''y'', Some ''expected newline'') [''web_1'', ''db_1''])
   \<and> ProjectDelete
        (\<lambda>options args.
           case Delete_BeforeDeleteCallback options of
             None \<Rightarrow> (if True then None else Some ''aborted'')
           | Some callback \<Rightarrow>
               (if fst (callback (Scanln [32, 121, 32, 10]) [''web_1'', ''db_1''])
                then None else Some ''aborted''))
        False False []
       = None"
proof -
  have line: "one_token_line 121 [32, 121, 32, 10]"
    unfolding one_token_line_def
    by (intro exI [of _ "[32]"] exI [of _ "[10]"] conjI) (simp_all add: blank_def isSpace_def)
  note inst = delete_confirmation_token_y [of False _ _ "[''web_1'', ''db_1'']" "[32, 121, 32, 10]"
      "\<lambda>ok. if ok then None else Some ''aborted''" "[]"]
  from inst line
  have a: "fst (BeforeDeleteCallback (Scanln [32, 121, 32, 10]) [''web_1'', ''db_1''])"
    by simp
  from inst [of "''yes''" None]
  have b: "\<not> fst (BeforeDeleteCallback (''yes'', None) [''web_1'', ''db_1''])"
    by simp
  from inst [of "''y''" "Some ''expected newline''"]
  have c: "\<not> fst (BeforeDeleteCallback (''y'', Some ''expected newline'') [''web_1'', ''db_1''])"
    by simp
  from inst [of "[]" None] line
  have d: "ProjectDelete
        (\<lambda>options args.
           case Delete_BeforeDeleteCallback options of
             None \<Rightarrow> (if True then None else Some ''aborted'')
           | Some callback \<Rightarrow>
               (if fst (callback (Scanln [32, 121, 32, 10]) [''web_1'', ''db_1''])
                then None else Some ''aborted''))
        False False []
       = None"
    by simp
  from line a b c d show ?thesis by (intro conjI)
qed

theorem delete_confirmation_line_counterexample:
  "fst (BeforeDeleteCallback (Scanln [32, 121, 32, 10]) [''web_1'', ''db_1''])
   \<and> line_read [32, 121, 32, 10] = '' y ''
   \<and> line_read [32, 121, 32, 10] \<noteq> ''y''
   \<and> line_read [32, 121, 32, 10] \<noteq> ''Y''"
  by (simp add: Scanln_examples(1) line_read_example BeforeDeleteCallback_def)

text \<open>
  C9. As amended. In a foregrounded \<open>up\<close>, the stop action is invoked at most once, after
  the context has been cancelled, and the function returns nothing but \<open>nil\<close>. When the
  \<open>select\<close> takes the signal (the only case it can take while \<open>p.Log\<close> has not
  returned), the context is cancelled, the stop action is invoked exactly once, and
  once it has returned the main thread receives the completion and returns \<open>nil\<close>:
  whenever the function has returned on such a run, the context is cancelled and the
  stop action has been invoked exactly once, and from every position of that case the
  run can go on to this return by the statements of the case alone.
\<close>

theorem up_signal_case_stops_once:
  assumes "ProjectUp up d = Inr s0" and "run es s0 = Some s"
  shows "up = None \<and> \<not> d
       \<and> stops s \<le> 1
       \<and> (stops s = 1 \<longrightarrow> cancelled s)
       \<and> (\<forall>r. main s = Returned r \<longrightarrow> r = None \<and> exited s = None)
       \<and> (logger s = Logging \<longrightarrow> step TakeErr s = None)
       \<and> (TakeSignal \<in> set es \<longrightarrow>
            signal_case s
          \<and> (\<forall>r. main s = Returned r \<longrightarrow>
                 r = None \<and> cancelled s \<and> stops s = 1 \<and> exited s = None))
       \<and> (selector s = GotSignal \<longrightarrow>
            (\<forall>r. \<exists>s'. run [DoPrintf, CancelFun, StopCall, StopReturn r, CleanupDone] s = Some s'
                 \<and> main s' = Returned None \<and> cancelled s' \<and> stops s' = 1 \<and> exited s' = None))
       \<and> (signal_case s \<longrightarrow>
            (\<exists>es' s'. run es' s = Some s' \<and> TakeErr \<notin> set es' \<and> LogrusFatal \<notin> set es'
                 \<and> main s' = Returned None \<and> cancelled s' \<and> stops s' = 1 \<and> exited s' = None))"
proof -
  from assms(1) have start: "up = None" "\<not> d" "s0 = foreground"
    by (auto simp: ProjectUp_def split: option.splits if_splits)
  from up_inv_run [OF up_inv_foreground] assms(2) start(3) have inv: "up_inv s"
    by simp
  from inv have once: "stops s \<le> 1" "stops s = 1 \<longrightarrow> cancelled s"
    by (auto simp: up_inv_def split: if_splits)
  from inv have ret: "\<forall>r. main s = Returned r \<longrightarrow> r = None \<and> exited s = None"
    by (auto simp: up_inv_def)
  have log: "logger s = Logging \<longrightarrow> step TakeErr s = None"
    by (simp add: step_def)
  have taken: "TakeSignal \<in> set es \<longrightarrow>
            signal_case s
          \<and> (\<forall>r. main s = Returned r \<longrightarrow>
                 r = None \<and> cancelled s \<and> stops s = 1 \<and> exited s = None)"
  proof
    assume "TakeSignal \<in> set es"
    with signal_case_run [OF assms(2)] have sc: "signal_case s" by simp
    with inv show "signal_case s
          \<and> (\<forall>r. main s = Returned r \<longrightarrow>
                 r = None \<and> cancelled s \<and> stops s = 1 \<and> exited s = None)"
      by (auto simp: up_inv_def signal_case_def)
  qed
  have finish: "selector s = GotSignal \<longrightarrow>
            (\<forall>r. \<exists>s'. run [DoPrintf, CancelFun, StopCall, StopReturn r, CleanupDone] s = Some s'
                 \<and> main s' = Returned None \<and> cancelled s' \<and> stops s' = 1 \<and> exited s' = None)"
    using signal_case_finish [OF inv] by blast
  have progress: "signal_case s \<longrightarrow>
            (\<exists>es' s'. run es' s = Some s' \<and> TakeErr \<notin> set es' \<and> LogrusFatal \<notin> set es'
                 \<and> main s' = Returned None \<and> cancelled s' \<and> stops s' = 1 \<and> exited s' = None)"
    using signal_case_progress [OF inv] by blast
  from start(1,2) once ret log taken finish progress show ?thesis by (intro conjI)
qed

theorem up_signal_case_stops_once_witness:
  "ProjectUp None False = Inr foreground
   \<and> run [Signal, TakeSignal, DoPrintf, CancelFun, StopCall, StopReturn None, CleanupDone] foreground
       = Some \<lparr>main = Returned None, logger = Logging, selector = DoneSignal, signalChan = False,
               signals = 1, cancelled = True, stops = 1, exited = None\<rparr>
   \<and> TakeSignal \<in> set [Signal, TakeSignal, DoPrintf, CancelFun, StopCall, StopReturn None, CleanupDone]
   \<and> signal_case \<lparr>main = Returned None, logger = Logging, selector = DoneSignal, signalChan = False,
               signals = 1, cancelled = True, stops = 1, exited = None\<rparr>"
proof -
  have start: "ProjectUp None False = Inr foreground"
    by (simp add: ProjectUp_def)
  have mem: "TakeSignal \<in> set [Signal, TakeSignal, DoPrintf, CancelFun, StopCall, StopReturn None, CleanupDone]"
    by simp
  let ?s = "\<lparr>main = Returned None, logger = Logging, selector = DoneSignal, signalChan = False,
               signals = 1, cancelled = True, stops = 1, exited = None\<rparr>"
  from up_signal_case_stops_once [OF start signal_run]
  have "TakeSignal \<in> set [Signal, TakeSignal, DoPrintf, CancelFun, StopCall, StopReturn None, CleanupDone]
      \<longrightarrow> signal_case ?s
          \<and> (\<forall>r. main ?s = Returned r \<longrightarrow>
                 r = None \<and> cancelled ?s \<and> stops ?s = 1 \<and> exited ?s = None)"
    apply -
    apply (elim conjE)
    apply assumption
    done
  from this [rule_format, OF mem] have "signal_case ?s"
    by (rule conjunct1)
  with start signal_run mem show ?thesis by (intro conjI)
qed

theorem up_signal_race_counterexample:
  "ProjectUp None False = Inr foreground
   \<and> run [LogReturns None, Signal, TakeErr, CleanupDone] foreground
       = Some \<lparr>main = Returned None, logger = Delivered, selector = DoneErr, signalChan = True,
               signals = 1, cancelled = False, stops = 0, exited = None\<rparr>"
  using race_run by (simp add: ProjectUp_def)

text \<open>
  C10. In \<open>ProjectRun\<close> the guard \<open>"No service specified"\<close> ends the process exactly when
  the argument list has one element. With an empty argument list the guard does not
  fire, and reading element 0 of the empty list panics.
\<close>

theorem run_guard_only_for_one_argument:
  "((\<exists>m. ProjectRun p_Run args = Fatal m) \<longleftrightarrow> length args = 1)
   \<and> (length args = 1 \<longrightarrow> ProjectRun p_Run args = Fatal (Text ''No service specified''))
   \<and> ProjectRun p_Run [] = Panic ''index out of range''"
  by (auto simp: ProjectRun_def split: list.splits option.splits prod.splits)

theorem run_guard_only_for_one_argument_witness:
  "length [''web''] = 1
   \<and> ProjectRun (\<lambda>serviceName commandParts. (0, None)) [''web'']
       = Fatal (Text ''No service specified'')
   \<and> ProjectRun (\<lambda>serviceName commandParts. (0, None)) [] = Panic ''index out of range''
   \<and> \<not> (\<exists>m. ProjectRun (\<lambda>serviceName commandParts. (0, None)) [''web'', ''ls''] = Fatal m)"
  using run_guard_only_for_one_argument [of "\<lambda>serviceName commandParts. (0, None)" "[''web'']"]
    run_guard_only_for_one_argument [of "\<lambda>serviceName commandParts. (0, None)" "[''web'', ''ls'']"]
  by simp

end
